theory Spec2Isabelle
  imports Main
begin

section \<open>The local file source of the rolodex (package index)\<close>

text \<open>
  The Go file under study declares \<^verbatim>\<open>LocalFS\<close>, \<^verbatim>\<open>LocalFile\<close> and
  \<^verbatim>\<open>localRolodexFile\<close>. Their methods mutate objects that are shared through
  pointers, so the embedding keeps an explicit store: one total map from addresses to
  objects per Go type, with an allocation counter each. A pointer is an address, a
  nil pointer is \<open>None\<close>. Calls into collaborators whose code is not part of the file
  (the YAML parser, the spec-info extractor, the index constructor) are parameters,
  collected in \<open>env\<close>, and every such call is appended to the \<open>trace\<close> of the store,
  so that "how often was the content parsed" is a statement about the trace.
  Diagnostic calls to the logger have no effect on any value and are left out.
\<close>

subsection \<open>Data\<close>

type_synonym addr = nat
type_synonym time = int
type_synonym SpecIndexConfig = nat

datatype errno = ErrNotExist | ErrInvalid

datatype error =
    PathError string string errno
  | EOF
  | Errorf string
  | ErrExternal string

datatype FileExtension = YAML | JSON | UNSUPPORTED

datatype yaml_Node = Node nat string "yaml_Node list"

record SpecIndex =
  root :: "addr option"
  specAbsolutePath :: string

record LocalFile =
  filename :: string
  name :: string
  extension :: FileExtension
  data :: "string option"
  fullPath :: string
  lastModified :: time
  readingErrors :: "error list"
  index :: "addr option"
  parsed :: "addr option"

record localRolodexFile =
  rf :: addr
  offset :: int

datatype event =
    Unmarshal string
  | ExtractSpecInfo "string option"
  | NewSpecIndex addr SpecIndexConfig

record store =
  nodes :: "addr \<Rightarrow> yaml_Node"
  nextNode :: addr
  indexes :: "addr \<Rightarrow> SpecIndex"
  nextIndex :: addr
  files :: "addr \<Rightarrow> LocalFile"
  nextFile :: addr
  handles :: "addr \<Rightarrow> localRolodexFile"
  nextHandle :: addr
  trace :: "event list"

text \<open>
  The collaborators. \<open>yaml_Unmarshal\<close> is \<^verbatim>\<open>yaml.Unmarshal\<close> (the tree it fills in,
  or its error); \<open>ExtractSpecInfoWithDocumentCheck\<close> yields the \<^verbatim>\<open>RootNode\<close> of the
  spec info, or its error; \<open>NewSpecIndexWithConfig\<close> receives the root pointer, the
  node it points to and the configuration, and yields the new index, of which the
  file reads and writes the fields \<open>root\<close> and \<open>specAbsolutePath\<close>.
  \<open>Getwd\<close> is the working directory \<^verbatim>\<open>filepath.Abs\<close> consults, \<open>Now\<close> the clock read
  while the walked path is handled, \<open>ExtractFileType\<close> the classification by extension.
\<close>

record env =
  yaml_Unmarshal :: "string \<Rightarrow> error + yaml_Node"
  ExtractSpecInfoWithDocumentCheck :: "string option \<Rightarrow> bool \<Rightarrow> error + yaml_Node"
  NewSpecIndexWithConfig :: "addr \<Rightarrow> yaml_Node \<Rightarrow> SpecIndexConfig \<Rightarrow> SpecIndex"
  ExtractFileType :: "string \<Rightarrow> FileExtension"
  Getwd :: "error + string"
  Now :: "string \<Rightarrow> time"

subsection \<open>Allocation and logging\<close>

definition new_node :: "yaml_Node \<Rightarrow> store \<Rightarrow> addr \<times> store" where
  "new_node v s = (nextNode s, s\<lparr>nodes := (nodes s)(nextNode s := v), nextNode := Suc (nextNode s)\<rparr>)"

definition new_index :: "SpecIndex \<Rightarrow> store \<Rightarrow> addr \<times> store" where
  "new_index v s = (nextIndex s, s\<lparr>indexes := (indexes s)(nextIndex s := v), nextIndex := Suc (nextIndex s)\<rparr>)"

definition new_file :: "LocalFile \<Rightarrow> store \<Rightarrow> addr \<times> store" where
  "new_file v s = (nextFile s, s\<lparr>files := (files s)(nextFile s := v), nextFile := Suc (nextFile s)\<rparr>)"

definition new_handle :: "localRolodexFile \<Rightarrow> store \<Rightarrow> addr \<times> store" where
  "new_handle v s = (nextHandle s, s\<lparr>handles := (handles s)(nextHandle s := v), nextHandle := Suc (nextHandle s)\<rparr>)"

definition log_event :: "event \<Rightarrow> store \<Rightarrow> store" where
  "log_event ev s = s\<lparr>trace := trace s @ [ev]\<rparr>"

subsection \<open>LocalFile: Index and GetContentAsYAMLNode\<close>

text \<open>
  \<^verbatim>\<open>LocalFile.Index\<close>. A cached index is returned at once. Otherwise the content is
  handed to \<^verbatim>\<open>ExtractSpecInfoWithDocumentCheck(content, true)\<close>; on its error nothing is
  stored; otherwise the index is built from \<^verbatim>\<open>info.RootNode\<close>, stamped with the full
  path of the file and cached in \<^verbatim>\<open>l.index\<close>.
\<close>

definition Index :: "env \<Rightarrow> addr \<Rightarrow> SpecIndexConfig \<Rightarrow> store \<Rightarrow> (error + addr) \<times> store" where
  "Index E l cfg s =
     (case index (files s l) of
        Some i \<Rightarrow> (Inr i, s)
      | None \<Rightarrow>
          (let content = data (files s l);
               s1 = log_event (ExtractSpecInfo content) s
           in case ExtractSpecInfoWithDocumentCheck E content True of
                Inl err \<Rightarrow> (Inl err, s1)
              | Inr rootNode \<Rightarrow>
                  (let (n, s2) = new_node rootNode s1;
                       s3 = log_event (NewSpecIndex n cfg) s2;
                       (i, s4) = new_index ((NewSpecIndexWithConfig E n rootNode cfg)
                                   \<lparr>specAbsolutePath := fullPath (files s3 l)\<rparr>) s3;
                       s5 = s4\<lparr>files := (files s4)(l := (files s4 l)\<lparr>index := Some i\<rparr>)\<rparr>
                   in (Inr i, s5))))"

text \<open>\<^verbatim>\<open>l.index != nil && l.index.root != nil\<close>, as the root it then returns.\<close>

definition index_root :: "store \<Rightarrow> addr \<Rightarrow> addr option" where
  "index_root s l = (case index (files s l) of None \<Rightarrow> None | Some i \<Rightarrow> root (indexes s i))"

text \<open>\<^verbatim>\<open>if l.index != nil && l.index.root == nil { l.index.root = &root }\<close>\<close>

definition backfill_root :: "addr \<Rightarrow> addr \<Rightarrow> store \<Rightarrow> store" where
  "backfill_root l n s =
     (case index (files s l) of
        None \<Rightarrow> s
      | Some i \<Rightarrow>
          (if root (indexes s i) = None
           then s\<lparr>indexes := (indexes s)(i := (indexes s i)\<lparr>root := Some n\<rparr>)\<rparr>
           else s))"

text \<open>
  \<^verbatim>\<open>LocalFile.GetContentAsYAMLNode\<close>, in the order of the source: the cached tree; the
  root of a built index; the error for nil data; the parse, whose failure stores
  nothing and whose success back-fills an index without root and caches the tree.
\<close>

definition GetContentAsYAMLNode :: "env \<Rightarrow> addr \<Rightarrow> store \<Rightarrow> (error + addr) \<times> store" where
  "GetContentAsYAMLNode E l s =
     (case parsed (files s l) of
        Some n \<Rightarrow> (Inr n, s)
      | None \<Rightarrow>
          (case index_root s l of
             Some n \<Rightarrow> (Inr n, s)
           | None \<Rightarrow>
               (case data (files s l) of
                  None \<Rightarrow> (Inl (Errorf (''no data to parse for file: '' @ fullPath (files s l))), s)
                | Some bs \<Rightarrow>
                    (let s1 = log_event (Unmarshal bs) s
                     in case yaml_Unmarshal E bs of
                          Inl err \<Rightarrow> (Inl err, s1)
                        | Inr v \<Rightarrow>
                            (let (n, s2) = new_node v s1;
                                 s3 = backfill_root l n s2;
                                 s4 = s3\<lparr>files := (files s3)(l := (files s3 l)\<lparr>parsed := Some n\<rparr>)\<rparr>
                             in (Inr n, s4))))))"

text \<open>\<^verbatim>\<open>GetContent\<close> is \<^verbatim>\<open>string(l.data)\<close>: the bytes, and the empty string for nil.\<close>

definition GetContent :: "LocalFile \<Rightarrow> string" where
  "GetContent lf = (case data lf of None \<Rightarrow> [] | Some bs \<Rightarrow> bs)"

text \<open>Calling a method \<open>n\<close> times in a row, collecting the results.\<close>

fun repeat_call :: "(store \<Rightarrow> 'r \<times> store) \<Rightarrow> nat \<Rightarrow> store \<Rightarrow> 'r list \<times> store" where
  "repeat_call m 0 s = ([], s)"
| "repeat_call m (Suc k) s =
     (let (r, s1) = m s; (rs, s2) = repeat_call m k s1 in (r # rs, s2))"

text \<open>The parse events and the index constructions of a trace.\<close>

fun is_parse :: "event \<Rightarrow> bool" where
  "is_parse (Unmarshal bs) = True"
| "is_parse (ExtractSpecInfo c) = True"
| "is_parse (NewSpecIndex n cfg) = False"

fun is_build :: "event \<Rightarrow> bool" where
  "is_build (NewSpecIndex n cfg) = True"
| "is_build ev = False"

definition parses :: "store \<Rightarrow> nat" where
  "parses s = length (filter is_parse (trace s))"

definition builds :: "store \<Rightarrow> nat" where
  "builds s = length (filter is_build (trace s))"

subsection \<open>Paths (package filepath, Unix)\<close>

text \<open>
  The lexical path functions of the Go standard library that the file calls, for
  slash-separated paths without volume names. \<open>Clean\<close> drops empty and \<^verbatim>\<open>.\<close> elements,
  cancels an element against a following \<^verbatim>\<open>..\<close>, drops \<^verbatim>\<open>..\<close> at the root and keeps
  leading \<^verbatim>\<open>..\<close> of a relative path.
\<close>

definition HasPrefix :: "string \<Rightarrow> string \<Rightarrow> bool" where
  "HasPrefix s pre = (take (length pre) s = pre)"

definition HasSuffix :: "string \<Rightarrow> string \<Rightarrow> bool" where
  "HasSuffix s suf = (length suf \<le> length s \<and> drop (length s - length suf) s = suf)"

definition IsAbs :: "string \<Rightarrow> bool" where
  "IsAbs p = HasPrefix p ''/''"

fun split_slash :: "string \<Rightarrow> string list" where
  "split_slash [] = [[]]"
| "split_slash (c # cs) =
     (if c = CHR ''/'' then [] # split_slash cs
      else (case split_slash cs of [] \<Rightarrow> [[c]] | e # es \<Rightarrow> (c # e) # es))"

fun join_slash :: "string list \<Rightarrow> string" where
  "join_slash [] = []"
| "join_slash [e] = e"
| "join_slash (e # e' # es) = e @ ''/'' @ join_slash (e' # es)"

fun clean_elems :: "bool \<Rightarrow> string list \<Rightarrow> string list \<Rightarrow> string list" where
  "clean_elems rooted out [] = rev out"
| "clean_elems rooted out (e # es) =
     (if e = [] \<or> e = ''.'' then clean_elems rooted out es
      else if e = ''..'' then
        (case out of
           [] \<Rightarrow> if rooted then clean_elems rooted [] es else clean_elems rooted [''..''] es
         | t # ts \<Rightarrow> if t = ''..'' then clean_elems rooted (''..'' # out) es
                     else clean_elems rooted ts es)
      else clean_elems rooted (e # out) es)"

definition Clean :: "string \<Rightarrow> string" where
  "Clean p =
     (if p = [] then ''.''
      else (let body = join_slash (clean_elems (IsAbs p) [] (split_slash p))
            in if IsAbs p then ''/'' @ body else if body = [] then ''.'' else body))"

text \<open>\<^verbatim>\<open>filepath.Join\<close> of two elements: the first non-empty element onwards, cleaned.\<close>

definition Join :: "string \<Rightarrow> string \<Rightarrow> string" where
  "Join a b =
     (if a \<noteq> [] then Clean (a @ ''/'' @ b) else if b \<noteq> [] then Clean b else [])"

definition Abs :: "env \<Rightarrow> string \<Rightarrow> error + string" where
  "Abs E p =
     (if IsAbs p then Inr (Clean p)
      else (case Getwd E of Inl err \<Rightarrow> Inl err | Inr wd \<Rightarrow> Inr (Join wd p)))"

definition Base :: "string \<Rightarrow> string" where
  "Base p =
     (if p = [] then ''.''
      else (let q = rev (dropWhile (\<lambda>c. c = CHR ''/'') (rev p));
                e = rev (takeWhile (\<lambda>c. c \<noteq> CHR ''/'') (rev q))
            in if e = [] then ''/'' else e))"

definition Ext :: "string \<Rightarrow> string" where
  "Ext p =
     (let e = takeWhile (\<lambda>c. c \<noteq> CHR ''/'') (rev p)
      in if CHR ''.'' \<in> set e then CHR ''.'' # rev (takeWhile (\<lambda>c. c \<noteq> CHR ''.'') e) else [])"

subsection \<open>LocalFS: Open, and Read on the handle\<close>

record LocalFS =
  entryPointDirectory :: string
  baseDirectory :: string
  Files :: "string \<rightharpoonup> addr"
  fsReadingErrors :: "error list"
  filters :: "string list"

text \<open>
  The first statement of \<^verbatim>\<open>Open\<close>: a name that is not absolute is joined to the base
  directory and made absolute; an absolute name is left as it is.
\<close>

definition Open_name :: "env \<Rightarrow> LocalFS \<Rightarrow> string \<Rightarrow> error + string" where
  "Open_name E fs nm =
     (if \<not> IsAbs nm then Abs E (Join (baseDirectory fs) nm) else Inr nm)"

definition Open :: "env \<Rightarrow> LocalFS \<Rightarrow> string \<Rightarrow> store \<Rightarrow> (error + addr) \<times> store" where
  "Open E fs nm s =
     (case Open_name E fs nm of
        Inl absErr \<Rightarrow> (Inl absErr, s)
      | Inr nm' \<Rightarrow>
          (case Files fs nm' of
             Some f \<Rightarrow> (let (r, s1) = new_handle \<lparr>rf = f, offset = 0\<rparr> s in (Inr r, s1))
           | None \<Rightarrow> (Inl (PathError ''open'' nm' ErrNotExist), s)))"

text \<open>
  \<^verbatim>\<open>Read(b)\<close> on the handle at address \<open>r\<close>. The result is the count, the buffer after
  the call and the error. \<^verbatim>\<open>copy\<close> moves as many bytes as both sides have. The offset
  is an \<^verbatim>\<open>int64\<close>; it never exceeds the length of the content, which fits that type,
  so it is an \<open>int\<close> here.
\<close>

definition Read :: "addr \<Rightarrow> string \<Rightarrow> store \<Rightarrow> (nat \<times> string \<times> error option) \<times> store" where
  "Read r b s =
     (let h = handles s r; content = GetContent (files s (rf h))
      in if offset h \<ge> int (length content) then ((0, b, Some EOF), s)
         else if offset h < 0
         then ((0, b, Some (PathError ''read'' (fullPath (files s (rf h))) ErrInvalid)), s)
         else (let src = drop (nat (offset h)) content;
                   n = min (length b) (length src)
               in ((n, take n src @ drop n b, None),
                   s\<lparr>handles := (handles s)(r := h\<lparr>offset := offset h + int n\<rparr>)\<rparr>)))"

subsection \<open>Discovery: NewLocalFSWithConfig\<close>

text \<open>
  The directory file system of the configuration is what \<^verbatim>\<open>fs.WalkDir\<close> and the
  callback see of it: \<open>fsWalk\<close> is the sequence of calls \<^verbatim>\<open>(p, d, err)\<close> that the walk
  from \<^verbatim>\<open>.\<close> makes while the callback returns nil, \<open>fsOpen\<close> the result of opening a
  path, with what \<^verbatim>\<open>Stat\<close> and \<^verbatim>\<open>io.ReadAll\<close> on the opened file yield.
\<close>

record DirEntry =
  IsDir :: bool

record FileInfo =
  ModTime :: time

record fsFile =
  Stat :: "FileInfo option \<times> error option"
  ReadAll :: "string \<times> error option"

type_synonym walkEntry = "string \<times> DirEntry option \<times> error option"

record FS =
  fsOpen :: "string \<Rightarrow> error + fsFile"
  fsWalk :: "walkEntry list"

record LocalFSConfig =
  BaseDirectory :: string
  FileFilters :: "string list"
  DirFS :: FS

text \<open>The variables the callback closes over, and the store.\<close>

record walkState =
  localFiles :: "string \<rightharpoonup> addr"
  allErrors :: "error list"
  heap :: store

text \<open>
  The tests of the callback that end it with nil before a file is looked at:
  a directory (or no entry), a single-file base with another path, a path that
  starts with a dot, a filter list that does not contain the path.
\<close>

definition skipped :: "LocalFSConfig \<Rightarrow> string \<Rightarrow> DirEntry option \<Rightarrow> bool" where
  "skipped config p d =
     ((case d of None \<Rightarrow> True | Some de \<Rightarrow> IsDir de)
      \<or> (length (Ext (BaseDirectory config)) > 2 \<and> p \<noteq> Base (BaseDirectory config))
      \<or> HasPrefix p ''.''
      \<or> (length (FileFilters config) > 0 \<and> p \<notin> set (FileFilters config)))"

text \<open>The branch \<^verbatim>\<open>case YAML, JSON\<close>: open, stat, read, and the new record.\<close>

definition collect ::
  "env \<Rightarrow> LocalFSConfig \<Rightarrow> string \<Rightarrow> string \<Rightarrow> error list \<Rightarrow> walkState \<Rightarrow> walkState" where
  "collect E config p absPath readingErrors0 w =
     (case fsOpen (DirFS config) p of
        Inl readErr \<Rightarrow> w\<lparr>allErrors := allErrors w @ [readErr]\<rparr>
      | Inr file \<Rightarrow>
          (let (stat, statErr) = Stat file;
               readingErrors1 = (case statErr of None \<Rightarrow> readingErrors0 | Some e \<Rightarrow> readingErrors0 @ [e]);
               allErrors1 = (case statErr of None \<Rightarrow> allErrors w | Some e \<Rightarrow> allErrors w @ [e]);
               modTime = (case stat of None \<Rightarrow> Now E p | Some fi \<Rightarrow> ModTime fi);
               (fileData, readErr) = ReadAll file
           in case readErr of
                Some e \<Rightarrow> w\<lparr>allErrors := allErrors1 @ [e]\<rparr>
              | None \<Rightarrow>
                  (let (a, h1) = new_file
                         \<lparr>filename = p, name = Base p, extension = ExtractFileType E p,
                          data = Some fileData, fullPath = absPath, lastModified = modTime,
                          readingErrors = readingErrors1, index = None, parsed = None\<rparr> (heap w)
                   in w\<lparr>localFiles := (localFiles w)(absPath \<mapsto> a), allErrors := allErrors1,
                        heap := h1\<rparr>)))"

text \<open>
  The callback handed to \<^verbatim>\<open>fs.WalkDir\<close>: \<open>Inl\<close> is the error it returns, \<open>Inr\<close>
  the state after it returned nil. \<^verbatim>\<open>filepath.Abs\<close> yields the empty path with its error.
\<close>

definition walkFn :: "env \<Rightarrow> LocalFSConfig \<Rightarrow> walkEntry \<Rightarrow> walkState \<Rightarrow> error + walkState" where
  "walkFn E config we w =
     (case we of (p, d, err) \<Rightarrow>
        (case err of
           Some e \<Rightarrow> Inl e
         | None \<Rightarrow>
             (if skipped config p d then Inr w
              else (let (absPath, readingErrors0) =
                          (case Abs E (Join (BaseDirectory config) p) of
                             Inl absErr \<Rightarrow> ([], [absErr])
                           | Inr a \<Rightarrow> (a, []))
                    in case ExtractFileType E p of
                         UNSUPPORTED \<Rightarrow> Inr w
                       | YAML \<Rightarrow> Inr (collect E config p absPath readingErrors0 w)
                       | JSON \<Rightarrow> Inr (collect E config p absPath readingErrors0 w)))))"

text \<open>
  \<^verbatim>\<open>fs.WalkDir\<close>: the callback is called for each entry in turn; the first error it
  returns ends the walk and is the walk's result.
\<close>

fun WalkDir :: "walkEntry list \<Rightarrow> (walkEntry \<Rightarrow> walkState \<Rightarrow> error + walkState) \<Rightarrow> walkState
    \<Rightarrow> error + walkState" where
  "WalkDir [] fn w = Inr w"
| "WalkDir (we # wes) fn w =
     (case fn we w of Inl err \<Rightarrow> Inl err | Inr w1 \<Rightarrow> WalkDir wes fn w1)"

definition NewLocalFSWithConfig :: "env \<Rightarrow> LocalFSConfig \<Rightarrow> store \<Rightarrow> error + LocalFS \<times> store" where
  "NewLocalFSWithConfig E config s =
     (case Abs E (BaseDirectory config) of
        Inl absBaseErr \<Rightarrow> Inl absBaseErr
      | Inr absBaseDir \<Rightarrow>
          (case WalkDir (fsWalk (DirFS config)) (walkFn E config)
                  \<lparr>localFiles = Map.empty, allErrors = [], heap = s\<rparr> of
             Inl walkErr \<Rightarrow> Inl walkErr
           | Inr w \<Rightarrow>
               Inr (\<lparr>entryPointDirectory = BaseDirectory config, baseDirectory = absBaseDir,
                     Files = localFiles w, fsReadingErrors = allErrors w, filters = []\<rparr>,
                    heap w)))"

subsection \<open>Sample collaborators and objects\<close>

text \<open>
  A sample environment: the parsers reject the content \<^verbatim>\<open>{\<close> and accept anything
  else, the index keeps the root it is given, files are classified by their suffix.
\<close>

definition demo_env :: env where
  "demo_env =
     \<lparr>yaml_Unmarshal =
        (\<lambda>bs. if bs = ''{'' then Inl (ErrExternal ''yaml: did not find expected node content'')
              else Inr (Node 1 bs [])),
      ExtractSpecInfoWithDocumentCheck =
        (\<lambda>c chk. case c of
                   None \<Rightarrow> Inl (ErrExternal ''there is nothing in the spec, it is empty'')
                 | Some bs \<Rightarrow>
                     if bs = ''{'' then Inl (ErrExternal ''yaml: did not find expected node content'')
                     else Inr (Node 1 bs [])),
      NewSpecIndexWithConfig = (\<lambda>n v cfg. \<lparr>root = Some n, specAbsolutePath = []\<rparr>),
      ExtractFileType =
        (\<lambda>p. if HasSuffix p ''.yaml'' \<or> HasSuffix p ''.yml'' then YAML
             else if HasSuffix p ''.json'' then JSON else UNSUPPORTED),
      Getwd = Inr ''/work'',
      Now = (\<lambda>p. 1000)\<rparr>"

definition demo_file :: "string \<Rightarrow> LocalFile" where
  "demo_file bs =
     \<lparr>filename = ''a.yaml'', name = ''a.yaml'', extension = YAML, data = Some bs,
      fullPath = ''/specs/a.yaml'', lastModified = 5, readingErrors = [],
      index = None, parsed = None\<rparr>"

definition demo_index :: "addr option \<Rightarrow> SpecIndex" where
  "demo_index r = \<lparr>root = r, specAbsolutePath = ''/specs/a.yaml''\<rparr>"

text \<open>A store in which every file address holds \<open>lf\<close> and every index address \<open>ix\<close>.\<close>

definition mk_store :: "LocalFile \<Rightarrow> SpecIndex \<Rightarrow> store" where
  "mk_store lf ix =
     \<lparr>nodes = (\<lambda>a. Node 0 [] []), nextNode = 5,
      indexes = (\<lambda>a. ix), nextIndex = 1,
      files = (\<lambda>a. lf), nextFile = 1,
      handles = (\<lambda>a. \<lparr>rf = 0, offset = 0\<rparr>), nextHandle = 0,
      trace = []\<rparr>"

text \<open>
  A file source with one entry, the content of the record a handle stands for
  (\<^verbatim>\<open>r.f.GetContent()\<close>), and a store with two handles opened on that entry.
\<close>

definition demo_fs :: LocalFS where
  "demo_fs =
     \<lparr>entryPointDirectory = ''/specs'', baseDirectory = ''/specs'',
      Files = Map.empty(''/specs/a.yaml'' \<mapsto> 0), fsReadingErrors = [], filters = []\<rparr>"

definition content_of :: "store \<Rightarrow> addr \<Rightarrow> string" where
  "content_of s r = GetContent (files s (rf (handles s r)))"

definition two_handles :: store where
  "two_handles =
     snd (Open demo_env demo_fs ''/specs/a.yaml''
       (snd (Open demo_env demo_fs ''a.yaml'' (mk_store (demo_file ''a: 1'') (demo_index None)))))"

text \<open>
  A sample directory file system: \<^verbatim>\<open>locked.yaml\<close> cannot be opened, \<^verbatim>\<open>cut.yaml\<close>
  fails while it is read, \<^verbatim>\<open>nostat.yaml\<close> has no file info, every other path opens
  with the content \<^verbatim>\<open>a: 1\<close>. The walks are those of a few small directories.
\<close>

definition demo_opened :: "string \<Rightarrow> fsFile" where
  "demo_opened bs = \<lparr>Stat = (Some \<lparr>ModTime = 42\<rparr>, None), ReadAll = (bs, None)\<rparr>"

definition demo_dirfs :: "walkEntry list \<Rightarrow> FS" where
  "demo_dirfs walk =
     \<lparr>fsOpen =
        (\<lambda>p. if p = ''locked.yaml'' then Inl (ErrExternal ''open locked.yaml: permission denied'')
             else if p = ''cut.yaml''
               then Inr \<lparr>Stat = (Some \<lparr>ModTime = 42\<rparr>, None),
                         ReadAll = (''a:'', Some (ErrExternal ''read cut.yaml: input/output error''))\<rparr>
             else if p = ''nostat.yaml''
               then Inr \<lparr>Stat = (None, Some (ErrExternal ''stat nostat.yaml: stale handle'')),
                         ReadAll = (''b: 2'', None)\<rparr>
             else Inr (demo_opened ''a: 1'')),
      fsWalk = walk\<rparr>"

definition demo_config :: "string \<Rightarrow> string list \<Rightarrow> walkEntry list \<Rightarrow> LocalFSConfig" where
  "demo_config base fl walk = \<lparr>BaseDirectory = base, FileFilters = fl, DirFS = demo_dirfs walk\<rparr>"

definition a_dir :: "DirEntry option" where
  "a_dir = Some \<lparr>IsDir = True\<rparr>"

definition a_file :: "DirEntry option" where
  "a_file = Some \<lparr>IsDir = False\<rparr>"

definition walk_with_error :: "walkEntry list" where
  "walk_with_error =
     [(''.'', a_dir, None), (''a.yaml'', a_file, None), (''sub'', a_dir, None),
      (''sub'', a_dir, Some (ErrExternal ''open sub: permission denied'')),
      (''b.yaml'', a_file, None)]"

definition walk_start :: walkState where
  "walk_start = \<lparr>localFiles = Map.empty, allErrors = [], heap = mk_store (demo_file ''a: 1'') (demo_index None)\<rparr>"

definition walk_hidden :: "walkEntry list" where
  "walk_hidden = [(''.'', a_dir, None), (''sub'', a_dir, None), (''sub/.hidden.yaml'', a_file, None)]"

definition walk_three :: "walkEntry list" where
  "walk_three =
     [(''.'', a_dir, None), (''a.yaml'', a_file, None), (''b.yaml'', a_file, None),
      (''c.json'', a_file, None)]"

section \<open>Facts about the methods of LocalFile\<close>

lemma repeat_call_fixed:
  "m s1 = (r, s1) \<Longrightarrow> repeat_call m k s1 = (replicate k r, s1)"
  by (induction k) simp_all

lemma repeat_call_Suc:
  "m s = (r, s1) \<Longrightarrow> m s1 = (r, s1) \<Longrightarrow> repeat_call m (Suc k) s = (replicate (Suc k) r, s1)"
  by (simp add: repeat_call_fixed)

lemma GetContentAsYAMLNode_parsed:
  "parsed (files s l) = Some n \<Longrightarrow> GetContentAsYAMLNode E l s = (Inr n, s)"
  by (simp add: GetContentAsYAMLNode_def)

lemma GetContentAsYAMLNode_index_root:
  "parsed (files s l) = None \<Longrightarrow> index_root s l = Some n \<Longrightarrow> GetContentAsYAMLNode E l s = (Inr n, s)"
  by (simp add: GetContentAsYAMLNode_def)

lemma GetContentAsYAMLNode_nil_data:
  "parsed (files s l) = None \<Longrightarrow> index_root s l = None \<Longrightarrow> data (files s l) = None \<Longrightarrow>
   GetContentAsYAMLNode E l s = (Inl (Errorf (''no data to parse for file: '' @ fullPath (files s l))), s)"
  by (simp add: GetContentAsYAMLNode_def)

lemma GetContentAsYAMLNode_parse_error:
  "parsed (files s l) = None \<Longrightarrow> index_root s l = None \<Longrightarrow> data (files s l) = Some bs \<Longrightarrow>
   yaml_Unmarshal E bs = Inl err \<Longrightarrow>
   GetContentAsYAMLNode E l s = (Inl err, log_event (Unmarshal bs) s)"
  by (simp add: GetContentAsYAMLNode_def)

lemma GetContentAsYAMLNode_parse_ok:
  "parsed (files s l) = None \<Longrightarrow> index_root s l = None \<Longrightarrow> data (files s l) = Some bs \<Longrightarrow>
   yaml_Unmarshal E bs = Inr v \<Longrightarrow>
   GetContentAsYAMLNode E l s =
     (Inr (nextNode s),
      (let s2 = snd (new_node v (log_event (Unmarshal bs) s)); s3 = backfill_root l (nextNode s) s2
       in s3\<lparr>files := (files s3)(l := (files s3 l)\<lparr>parsed := Some (nextNode s)\<rparr>)\<rparr>))"
  by (simp add: GetContentAsYAMLNode_def new_node_def log_event_def Let_def)

lemma GetContentAsYAMLNode_idem:
  assumes "GetContentAsYAMLNode E l s = (Inr n, s1)"
  shows "GetContentAsYAMLNode E l s1 = (Inr n, s1)"
  using assms
  by (auto simp: GetContentAsYAMLNode_def Let_def new_node_def log_event_def backfill_root_def
      split: option.splits sum.splits if_splits)

lemma Index_cached:
  "index (files s l) = Some i \<Longrightarrow> Index E l cfg s = (Inr i, s)"
  by (simp add: Index_def)

lemma Index_error:
  "index (files s l) = None \<Longrightarrow>
   ExtractSpecInfoWithDocumentCheck E (data (files s l)) True = Inl err \<Longrightarrow>
   Index E l cfg s = (Inl err, log_event (ExtractSpecInfo (data (files s l))) s)"
  by (simp add: Index_def Let_def)

lemma Index_idem:
  assumes "Index E l cfg s = (Inr i, s1)"
  shows "Index E l cfg s1 = (Inr i, s1)"
  using assms
  by (auto simp: Index_def Let_def new_node_def new_index_def log_event_def
      split: option.splits sum.splits if_splits)

lemma GetContentAsYAMLNode_backfill:
  assumes "parsed (files s l) = None" "index (files s l) = Some i" "root (indexes s i) = None"
    "data (files s l) = Some bs" "yaml_Unmarshal E bs = Inr v"
  shows "fst (GetContentAsYAMLNode E l s) = Inr (nextNode s)
       \<and> nodes (snd (GetContentAsYAMLNode E l s)) (nextNode s) = v
       \<and> root (indexes (snd (GetContentAsYAMLNode E l s)) i) = Some (nextNode s)
       \<and> parsed (files (snd (GetContentAsYAMLNode E l s)) l) = Some (nextNode s)
       \<and> trace (snd (GetContentAsYAMLNode E l s)) = trace s @ [Unmarshal bs]"
  using assms
  by (simp add: GetContentAsYAMLNode_def index_root_def new_node_def log_event_def
      backfill_root_def Let_def)

lemma GetContentAsYAMLNode_trace_changed:
  assumes "trace (snd (GetContentAsYAMLNode E l s)) \<noteq> trace s"
  shows "parsed (files s l) = None \<and> index_root s l = None"
  using assms
  by (auto simp: GetContentAsYAMLNode_def split: option.splits)

lemmas demo_defs = demo_env_def demo_file_def demo_index_def mk_store_def

lemma GetContentAsYAMLNode_failure:
  assumes "GetContentAsYAMLNode E l s = (Inl err, s1)"
  shows "parsed (files s l) = None \<and> index_root s l = None
       \<and> (case data (files s l) of
            None \<Rightarrow> s1 = s
          | Some bs \<Rightarrow> yaml_Unmarshal E bs = Inl err \<and> s1 = log_event (Unmarshal bs) s)"
  using assms
  by (auto simp: GetContentAsYAMLNode_def Let_def new_node_def
      split: option.splits sum.splits prod.splits)

lemma Index_failure:
  assumes "Index E l cfg s = (Inl err, s1)"
  shows "index (files s l) = None
       \<and> ExtractSpecInfoWithDocumentCheck E (data (files s l)) True = Inl err
       \<and> s1 = log_event (ExtractSpecInfo (data (files s l))) s"
  using assms
  by (auto simp: Index_def Let_def new_node_def new_index_def
      split: option.splits sum.splits prod.splits)

lemma log_event_simps:
  "files (log_event ev s) = files s" "indexes (log_event ev s) = indexes s"
  "nodes (log_event ev s) = nodes s" "handles (log_event ev s) = handles s"
  "nextNode (log_event ev s) = nextNode s" "nextIndex (log_event ev s) = nextIndex s"
  "nextFile (log_event ev s) = nextFile s" "nextHandle (log_event ev s) = nextHandle s"
  "trace (log_event ev s) = trace s @ [ev]"
  by (simp_all add: log_event_def)

lemma index_root_log_event: "index_root (log_event ev s) l = index_root s l"
  by (simp add: index_root_def log_event_simps split: option.splits)

lemma GetContentAsYAMLNode_success:
  assumes "GetContentAsYAMLNode E l s = (Inr n, s1)"
  shows "(parsed (files s l) \<noteq> None \<or> index_root s l \<noteq> None \<longrightarrow> s1 = s)
       \<and> (parsed (files s l) = None \<and> index_root s l = None \<longrightarrow>
            n = nextNode s \<and> parsed (files s1 l) = Some n
          \<and> (\<exists>bs. data (files s l) = Some bs \<and> trace s1 = trace s @ [Unmarshal bs]))"
  using assms
  by (auto simp: GetContentAsYAMLNode_def Let_def new_node_def log_event_def backfill_root_def
      split: option.splits sum.splits if_splits)

lemma Index_success:
  assumes "Index E l cfg s = (Inr i, s1)"
  shows "index (files s1 l) = Some i
       \<and> parsed (files s1 l) = parsed (files s l)
       \<and> (index (files s l) \<noteq> None \<longrightarrow> s1 = s)
       \<and> (index (files s l) = None \<longrightarrow>
            i = nextIndex s
          \<and> trace s1 = trace s @ [ExtractSpecInfo (data (files s l)), NewSpecIndex (nextNode s) cfg])"
  using assms
  by (auto simp: Index_def Let_def new_node_def new_index_def log_event_def
      split: option.splits sum.splits if_splits)

lemma Index_uncached:
  assumes "index (files s l) = None"
  shows "parses (snd (Index E l cfg s)) = Suc (parses s)
       \<and> parsed (files (snd (Index E l cfg s)) l) = parsed (files s l)"
  using assms
  by (auto simp: Index_def Let_def new_node_def new_index_def log_event_def parses_def
      split: option.splits sum.splits prod.splits)

section \<open>The claims about parsing and indexing a file\<close>

text \<open>
  Claim C1, as amended. The claim says that an index build reuses a tree that
  \<^verbatim>\<open>GetContentAsYAMLNode\<close> has parsed before. \<^verbatim>\<open>Index\<close> never reads \<^verbatim>\<open>l.parsed\<close>:
  whenever no index is cached it hands the content of the record to
  \<^verbatim>\<open>ExtractSpecInfoWithDocumentCheck\<close>, so one more parse is logged, whether or not a
  tree is cached, and the cached tree stays as it is. On success the index is built
  from the node of that new parse. The reuse holds in the other direction: when no
  tree is cached and the new index has a root, \<^verbatim>\<open>GetContentAsYAMLNode\<close> returns that
  root and leaves the store, the trace included, as it is.
\<close>

theorem Index_parses_whenever_uncached:
  "index (files s l) = None \<longrightarrow>
     parses (snd (Index E l cfg s)) = Suc (parses s)
   \<and> parsed (files (snd (Index E l cfg s)) l) = parsed (files s l)
   \<and> (\<forall>i. fst (Index E l cfg s) = Inr i \<longrightarrow>
         trace (snd (Index E l cfg s))
           = trace s @ [ExtractSpecInfo (data (files s l)), NewSpecIndex (nextNode s) cfg]
       \<and> index (files (snd (Index E l cfg s)) l) = Some i
       \<and> (\<forall>m. parsed (files s l) = None \<and> root (indexes (snd (Index E l cfg s)) i) = Some m \<longrightarrow>
             GetContentAsYAMLNode E l (snd (Index E l cfg s)) = (Inr m, snd (Index E l cfg s))))"
proof (intro impI conjI allI)
  assume u: "index (files s l) = None"
  from Index_uncached [OF u]
  show "parses (snd (Index E l cfg s)) = Suc (parses s)"
    and p: "parsed (files (snd (Index E l cfg s)) l) = parsed (files s l)"
    by simp_all
  fix i assume "fst (Index E l cfg s) = Inr i"
  then have a: "Index E l cfg s = (Inr i, snd (Index E l cfg s))"
    by (simp add: prod_eq_iff)
  note f = Index_success [OF a]
  from f u show "trace (snd (Index E l cfg s))
           = trace s @ [ExtractSpecInfo (data (files s l)), NewSpecIndex (nextNode s) cfg]"
    by blast
  from f show c: "index (files (snd (Index E l cfg s)) l) = Some i" by blast
  fix m assume "parsed (files s l) = None \<and> root (indexes (snd (Index E l cfg s)) i) = Some m"
  with p c have "parsed (files (snd (Index E l cfg s)) l) = None"
    and "index_root (snd (Index E l cfg s)) l = Some m"
    by (simp_all add: index_root_def)
  then show "GetContentAsYAMLNode E l (snd (Index E l cfg s)) = (Inr m, snd (Index E l cfg s))"
    by (rule GetContentAsYAMLNode_index_root)
qed

text \<open>
  The theorem at a record with a cached tree and no index (one parse is added), and at
  a fresh record, where the tree asked for after the index build is the index's root.
\<close>

theorem Index_parses_whenever_uncached_witness:
  "index (files (mk_store ((demo_file ''a: 1'')\<lparr>parsed := Some 3\<rparr>) (demo_index None)) 0) = None
   \<and> parses (snd (Index demo_env 0 7 (mk_store ((demo_file ''a: 1'')\<lparr>parsed := Some 3\<rparr>) (demo_index None)))) = 1
   \<and> fst (Index demo_env 0 7 (mk_store (demo_file ''a: 1'') (demo_index None))) = Inr 1
   \<and> root (indexes (snd (Index demo_env 0 7 (mk_store (demo_file ''a: 1'') (demo_index None)))) 1) = Some 5
   \<and> fst (GetContentAsYAMLNode demo_env 0 (snd (Index demo_env 0 7 (mk_store (demo_file ''a: 1'') (demo_index None)))))
       = Inr 5"
proof -
  let ?t = "mk_store ((demo_file ''a: 1'')\<lparr>parsed := Some 3\<rparr>) (demo_index None)"
  let ?s = "mk_store (demo_file ''a: 1'') (demo_index None)"
  have t: "index (files ?t 0) = None" "parses ?t = 0"
    by (simp_all add: demo_defs parses_def)
  have s: "index (files ?s 0) = None" "parsed (files ?s 0) = None"
    by (simp_all add: demo_defs)
  have r: "fst (Index demo_env 0 7 ?s) = Inr 1"
    "root (indexes (snd (Index demo_env 0 7 ?s)) 1) = Some 5"
    by (simp_all add: Index_def demo_defs new_node_def new_index_def log_event_def Let_def)
  from Index_parses_whenever_uncached [of ?t 0 demo_env 7] t
  have "parses (snd (Index demo_env 0 7 ?t)) = 1" by simp
  moreover from Index_parses_whenever_uncached [of ?s 0 demo_env 7] s r
  have "GetContentAsYAMLNode demo_env 0 (snd (Index demo_env 0 7 ?s))
      = (Inr 5, snd (Index demo_env 0 7 ?s))" by blast
  ultimately show ?thesis using t r by simp
qed

text \<open>
  The claim as stated fails: on a fresh record with content \<^verbatim>\<open>a: 1\<close>,
  \<^verbatim>\<open>GetContentAsYAMLNode\<close> caches the tree at address 5; the \<^verbatim>\<open>Index\<close> call that
  follows parses the same content again and builds the index on the new node at
  address 6, so the trace holds two parses and the tree and the index do not share one.
\<close>

theorem Index_reuses_parsed_tree_counterexample:
  "fst (GetContentAsYAMLNode demo_env 0 (mk_store (demo_file ''a: 1'') (demo_index None))) = Inr 5
   \<and> fst (Index demo_env 0 7
        (snd (GetContentAsYAMLNode demo_env 0 (mk_store (demo_file ''a: 1'') (demo_index None))))) = Inr 1
   \<and> parsed (files (snd (Index demo_env 0 7
        (snd (GetContentAsYAMLNode demo_env 0 (mk_store (demo_file ''a: 1'') (demo_index None)))))) 0) = Some 5
   \<and> root (indexes (snd (Index demo_env 0 7
        (snd (GetContentAsYAMLNode demo_env 0 (mk_store (demo_file ''a: 1'') (demo_index None)))))) 1) = Some 6
   \<and> trace (snd (Index demo_env 0 7
        (snd (GetContentAsYAMLNode demo_env 0 (mk_store (demo_file ''a: 1'') (demo_index None))))))
      = [Unmarshal ''a: 1'', ExtractSpecInfo (Some ''a: 1''), NewSpecIndex 6 7]"
  by (simp add: GetContentAsYAMLNode_def Index_def demo_defs index_root_def
      new_node_def new_index_def log_event_def backfill_root_def Let_def)

text \<open>
  Claim C3. When the first call of \<^verbatim>\<open>GetContentAsYAMLNode\<close> on a record succeeds with
  the tree \<open>n\<close>, any number \<open>Suc k\<close> of calls in a row all return \<open>n\<close>, the same
  address, and end in the store the first call left, so the later calls have no
  effect; if no tree was available before, the tree is cached on the record and the
  whole run adds exactly one parse to the trace, and if one was available the store
  does not change at all. The same holds for \<^verbatim>\<open>Index\<close>: all calls return the index
  \<open>i\<close> that is cached on the record, and a run that starts without an index adds
  exactly one parse and one index construction.
\<close>

theorem memoization:
  "(GetContentAsYAMLNode E l s = (Inr n, s1) \<longrightarrow>
      repeat_call (GetContentAsYAMLNode E l) (Suc k) s = (replicate (Suc k) (Inr n), s1)
      \<and> (parsed (files s l) = None \<and> index_root s l = None \<longrightarrow>
            parsed (files s1 l) = Some n
          \<and> parses (snd (repeat_call (GetContentAsYAMLNode E l) (Suc k) s)) = Suc (parses s))
      \<and> (parsed (files s l) \<noteq> None \<or> index_root s l \<noteq> None \<longrightarrow> s1 = s))
   \<and> (Index E l cfg s = (Inr i, s1) \<longrightarrow>
      repeat_call (Index E l cfg) (Suc k) s = (replicate (Suc k) (Inr i), s1)
      \<and> index (files s1 l) = Some i
      \<and> (index (files s l) = None \<longrightarrow>
            parses (snd (repeat_call (Index E l cfg) (Suc k) s)) = Suc (parses s)
          \<and> builds (snd (repeat_call (Index E l cfg) (Suc k) s)) = Suc (builds s))
      \<and> (index (files s l) \<noteq> None \<longrightarrow> s1 = s))"
proof (intro conjI impI)
  assume a: "GetContentAsYAMLNode E l s = (Inr n, s1)"
  note i = GetContentAsYAMLNode_idem [OF a]
  note f = GetContentAsYAMLNode_success [OF a]
  show r: "repeat_call (GetContentAsYAMLNode E l) (Suc k) s = (replicate (Suc k) (Inr n), s1)"
    using a i by (rule repeat_call_Suc)
  show "s1 = s" if "parsed (files s l) \<noteq> None \<or> index_root s l \<noteq> None"
    using f that by blast
  show "parsed (files s1 l) = Some n" if "parsed (files s l) = None \<and> index_root s l = None"
    using f that by blast
  show "parses (snd (repeat_call (GetContentAsYAMLNode E l) (Suc k) s)) = Suc (parses s)"
    if "parsed (files s l) = None \<and> index_root s l = None"
  proof -
    from f that obtain bs where "trace s1 = trace s @ [Unmarshal bs]" by blast
    then have "parses s1 = Suc (parses s)" by (simp add: parses_def)
    with r show ?thesis by simp
  qed
next
  assume a: "Index E l cfg s = (Inr i, s1)"
  note d = Index_idem [OF a]
  note f = Index_success [OF a]
  show r: "repeat_call (Index E l cfg) (Suc k) s = (replicate (Suc k) (Inr i), s1)"
    using a d by (rule repeat_call_Suc)
  show "index (files s1 l) = Some i" using f by blast
  show "s1 = s" if "index (files s l) \<noteq> None" using f that by blast
  show "parses (snd (repeat_call (Index E l cfg) (Suc k) s)) = Suc (parses s)"
    if "index (files s l) = None"
  proof -
    from f that have "trace s1 = trace s @ [ExtractSpecInfo (data (files s l)), NewSpecIndex (nextNode s) cfg]"
      by blast
    then have "parses s1 = Suc (parses s)" by (simp add: parses_def)
    with r show ?thesis by simp
  qed
  show "builds (snd (repeat_call (Index E l cfg) (Suc k) s)) = Suc (builds s)"
    if "index (files s l) = None"
  proof -
    from f that have "trace s1 = trace s @ [ExtractSpecInfo (data (files s l)), NewSpecIndex (nextNode s) cfg]"
      by blast
    then have "builds s1 = Suc (builds s)" by (simp add: builds_def)
    with r show ?thesis by simp
  qed
qed

text \<open>Three calls in a row on a fresh record: one address three times, one parse, one build.\<close>

theorem memoization_witness:
  "fst (repeat_call (GetContentAsYAMLNode demo_env 0) 3 (mk_store (demo_file ''a: 1'') (demo_index None)))
     = [Inr 5, Inr 5, Inr 5]
   \<and> parses (snd (repeat_call (GetContentAsYAMLNode demo_env 0) 3 (mk_store (demo_file ''a: 1'') (demo_index None)))) = 1
   \<and> fst (repeat_call (Index demo_env 0 7) 3 (mk_store (demo_file ''a: 1'') (demo_index None)))
     = [Inr 1, Inr 1, Inr 1]
   \<and> parses (snd (repeat_call (Index demo_env 0 7) 3 (mk_store (demo_file ''a: 1'') (demo_index None)))) = 1
   \<and> builds (snd (repeat_call (Index demo_env 0 7) 3 (mk_store (demo_file ''a: 1'') (demo_index None)))) = 1"
proof -
  let ?s = "mk_store (demo_file ''a: 1'') (demo_index None)"
  obtain g where g: "GetContentAsYAMLNode demo_env 0 ?s = (Inr 5, g)"
    by (simp add: GetContentAsYAMLNode_def demo_defs index_root_def new_node_def log_event_def Let_def)
  obtain x where x: "Index demo_env 0 7 ?s = (Inr 1, x)"
    by (simp add: Index_def demo_defs new_node_def new_index_def log_event_def Let_def)
  have p: "parsed (files ?s 0) = None \<and> index_root ?s 0 = None" "index (files ?s 0) = None"
    "parses ?s = 0" "builds ?s = 0"
    by (simp_all add: demo_defs index_root_def parses_def builds_def)
  have three: "(3::nat) = Suc 2" by simp
  from memoization [of demo_env 0 ?s 5 g 2 7 1] memoization [of demo_env 0 ?s 5 x 2 7 1] g x p
  show ?thesis unfolding three by (auto simp: numeral_3_eq_3)
qed

text \<open>
  Claim C4. A call of \<^verbatim>\<open>GetContentAsYAMLNode\<close> that returns an error leaves every
  object of the store as it was (only the trace may have grown), the tree of the
  record stays unset and its index field is what it was; when the record has content,
  the error is the parser's, one parse was logged, and the next call parses again and
  returns the same error. A call of \<^verbatim>\<open>Index\<close> that returns an error likewise changes
  nothing but the trace, the index stays unset, the tree field is what it was, and
  the next call hands the content to the extractor again.
\<close>

theorem failure_caches_nothing:
  "(GetContentAsYAMLNode E l s = (Inl err, s1) \<longrightarrow>
      s1 = s\<lparr>trace := trace s1\<rparr>
      \<and> parsed (files s1 l) = None
      \<and> index (files s1 l) = index (files s l)
      \<and> (\<forall>bs. data (files s l) = Some bs \<longrightarrow>
            yaml_Unmarshal E bs = Inl err
          \<and> trace s1 = trace s @ [Unmarshal bs]
          \<and> GetContentAsYAMLNode E l s1 = (Inl err, log_event (Unmarshal bs) s1)))
   \<and> (Index E l cfg s = (Inl err, s1) \<longrightarrow>
      s1 = s\<lparr>trace := trace s1\<rparr>
      \<and> index (files s1 l) = None
      \<and> parsed (files s1 l) = parsed (files s l)
      \<and> trace s1 = trace s @ [ExtractSpecInfo (data (files s l))]
      \<and> Index E l cfg s1 = (Inl err, log_event (ExtractSpecInfo (data (files s l))) s1))"
proof (intro conjI impI)
  assume a: "GetContentAsYAMLNode E l s = (Inl err, s1)"
  note f = GetContentAsYAMLNode_failure [OF a]
  show "s1 = s\<lparr>trace := trace s1\<rparr>"
    using f by (cases "data (files s l)") (simp_all add: log_event_def)
  have fs: "files s1 = files s" "indexes s1 = indexes s"
    using f by (cases "data (files s l)"; simp add: log_event_simps)+
  show "parsed (files s1 l) = None" using f fs by simp
  show "index (files s1 l) = index (files s l)" using fs by simp
  show "\<forall>bs. data (files s l) = Some bs \<longrightarrow>
            yaml_Unmarshal E bs = Inl err
          \<and> trace s1 = trace s @ [Unmarshal bs]
          \<and> GetContentAsYAMLNode E l s1 = (Inl err, log_event (Unmarshal bs) s1)"
  proof (intro allI impI)
    fix bs assume d: "data (files s l) = Some bs"
    with f have u: "yaml_Unmarshal E bs = Inl err" and s1: "s1 = log_event (Unmarshal bs) s"
      by simp_all
    have "GetContentAsYAMLNode E l s1 = (Inl err, log_event (Unmarshal bs) s1)"
      using f d u fs
      by (intro GetContentAsYAMLNode_parse_error) (simp_all add: index_root_log_event)
    with u s1 show "yaml_Unmarshal E bs = Inl err
          \<and> trace s1 = trace s @ [Unmarshal bs]
          \<and> GetContentAsYAMLNode E l s1 = (Inl err, log_event (Unmarshal bs) s1)"
      by (simp add: log_event_simps)
  qed
next
  assume a: "Index E l cfg s = (Inl err, s1)"
  note f = Index_failure [OF a]
  show "s1 = s\<lparr>trace := trace s1\<rparr>" using f by (simp add: log_event_def)
  have fs: "files s1 = files s" using f by (simp add: log_event_simps)
  show "index (files s1 l) = None" using f fs by simp
  show "parsed (files s1 l) = parsed (files s l)" using fs by simp
  show "trace s1 = trace s @ [ExtractSpecInfo (data (files s l))]"
    using f by (simp add: log_event_simps)
  show "Index E l cfg s1 = (Inl err, log_event (ExtractSpecInfo (data (files s l))) s1)"
    using f fs Index_error [of s1 l E err cfg] by simp
qed

text \<open>The malformed content \<^verbatim>\<open>{\<close>: both methods fail, and fail again with a second parse.\<close>

theorem failure_caches_nothing_witness:
  "GetContentAsYAMLNode demo_env 0 (mk_store (demo_file ''{'') (demo_index None))
     = (Inl (ErrExternal ''yaml: did not find expected node content''),
        log_event (Unmarshal ''{'') (mk_store (demo_file ''{'') (demo_index None)))
   \<and> GetContentAsYAMLNode demo_env 0 (log_event (Unmarshal ''{'') (mk_store (demo_file ''{'') (demo_index None)))
     = (Inl (ErrExternal ''yaml: did not find expected node content''),
        log_event (Unmarshal ''{'') (log_event (Unmarshal ''{'') (mk_store (demo_file ''{'') (demo_index None))))
   \<and> Index demo_env 0 7 (mk_store (demo_file ''{'') (demo_index None))
     = (Inl (ErrExternal ''yaml: did not find expected node content''),
        log_event (ExtractSpecInfo (Some ''{'')) (mk_store (demo_file ''{'') (demo_index None)))
   \<and> Index demo_env 0 7 (log_event (ExtractSpecInfo (Some ''{'')) (mk_store (demo_file ''{'') (demo_index None)))
     = (Inl (ErrExternal ''yaml: did not find expected node content''),
        log_event (ExtractSpecInfo (Some ''{''))
          (log_event (ExtractSpecInfo (Some ''{'')) (mk_store (demo_file ''{'') (demo_index None))))"
proof -
  let ?s = "mk_store (demo_file ''{'') (demo_index None)"
  let ?e = "ErrExternal ''yaml: did not find expected node content''"
  have g: "GetContentAsYAMLNode demo_env 0 ?s = (Inl ?e, log_event (Unmarshal ''{'') ?s)"
    by (simp add: GetContentAsYAMLNode_def demo_defs index_root_def Let_def)
  have i: "Index demo_env 0 7 ?s = (Inl ?e, log_event (ExtractSpecInfo (Some ''{'')) ?s)"
    by (simp add: Index_def demo_defs Let_def)
  have d: "data (files ?s 0) = Some ''{''" by (simp add: demo_defs)
  from failure_caches_nothing [of demo_env 0 ?s ?e "log_event (Unmarshal ''{'') ?s"] g d
  have g2: "GetContentAsYAMLNode demo_env 0 (log_event (Unmarshal ''{'') ?s)
      = (Inl ?e, log_event (Unmarshal ''{'') (log_event (Unmarshal ''{'') ?s))"
    by blast
  from failure_caches_nothing [of demo_env 0 ?s ?e "log_event (ExtractSpecInfo (Some ''{'')) ?s" 7] i d
  have i2: "Index demo_env 0 7 (log_event (ExtractSpecInfo (Some ''{'')) ?s)
      = (Inl ?e, log_event (ExtractSpecInfo (Some ''{'')) (log_event (ExtractSpecInfo (Some ''{'')) ?s))"
    by simp
  from g g2 i i2 show ?thesis by simp
qed

text \<open>
  Claim C10. \<^verbatim>\<open>GetContentAsYAMLNode\<close> returns a cached tree as it is; without one it
  returns the root of a built index that has one; in both cases the store, the trace
  included, is unchanged. When it parses with success while the record has an index
  without root, that root becomes the new node, which is also cached as the tree.
  When no tree is available and the data is nil it returns the error and the store
  is unchanged. A call that adds to the trace had no tree available.
\<close>

theorem GetContentAsYAMLNode_uses_available_tree:
  "(parsed (files s l) = Some n \<longrightarrow> GetContentAsYAMLNode E l s = (Inr n, s))
   \<and> (parsed (files s l) = None \<and> index (files s l) = Some i \<and> root (indexes s i) = Some n
        \<longrightarrow> GetContentAsYAMLNode E l s = (Inr n, s))
   \<and> (parsed (files s l) = None \<and> index (files s l) = Some i \<and> root (indexes s i) = None
        \<and> data (files s l) = Some bs \<and> yaml_Unmarshal E bs = Inr v
        \<longrightarrow> fst (GetContentAsYAMLNode E l s) = Inr (nextNode s)
          \<and> nodes (snd (GetContentAsYAMLNode E l s)) (nextNode s) = v
          \<and> root (indexes (snd (GetContentAsYAMLNode E l s)) i) = Some (nextNode s)
          \<and> parsed (files (snd (GetContentAsYAMLNode E l s)) l) = Some (nextNode s)
          \<and> trace (snd (GetContentAsYAMLNode E l s)) = trace s @ [Unmarshal bs])
   \<and> (parsed (files s l) = None \<and> index_root s l = None \<and> data (files s l) = None
        \<longrightarrow> GetContentAsYAMLNode E l s =
              (Inl (Errorf (''no data to parse for file: '' @ fullPath (files s l))), s))
   \<and> (trace (snd (GetContentAsYAMLNode E l s)) \<noteq> trace s
        \<longrightarrow> parsed (files s l) = None \<and> index_root s l = None)"
proof (intro conjI impI)
  assume "parsed (files s l) = Some n"
  then show "GetContentAsYAMLNode E l s = (Inr n, s)"
    by (rule GetContentAsYAMLNode_parsed)
next
  assume a: "parsed (files s l) = None \<and> index (files s l) = Some i \<and> root (indexes s i) = Some n"
  then have "index_root s l = Some n" by (simp add: index_root_def)
  with a show "GetContentAsYAMLNode E l s = (Inr n, s)"
    by (simp add: GetContentAsYAMLNode_index_root)
next
  assume a: "parsed (files s l) = None \<and> index (files s l) = Some i \<and> root (indexes s i) = None
        \<and> data (files s l) = Some bs \<and> yaml_Unmarshal E bs = Inr v"
  note b = GetContentAsYAMLNode_backfill [of s l i bs E v]
  from a b show "fst (GetContentAsYAMLNode E l s) = Inr (nextNode s)" by blast
  from a b show "nodes (snd (GetContentAsYAMLNode E l s)) (nextNode s) = v" by blast
  from a b show "root (indexes (snd (GetContentAsYAMLNode E l s)) i) = Some (nextNode s)" by blast
  from a b show "parsed (files (snd (GetContentAsYAMLNode E l s)) l) = Some (nextNode s)" by blast
  from a b show "trace (snd (GetContentAsYAMLNode E l s)) = trace s @ [Unmarshal bs]" by blast
next
  assume "parsed (files s l) = None \<and> index_root s l = None \<and> data (files s l) = None"
  then show "GetContentAsYAMLNode E l s =
              (Inl (Errorf (''no data to parse for file: '' @ fullPath (files s l))), s)"
    by (simp add: GetContentAsYAMLNode_nil_data)
next
  assume a: "trace (snd (GetContentAsYAMLNode E l s)) \<noteq> trace s"
  from GetContentAsYAMLNode_trace_changed [OF a]
  show "parsed (files s l) = None" and "index_root s l = None" by simp_all
qed

text \<open>
  One record for each case: a cached tree, an index with a root, an index without a
  root (back-filled with the node at address 5), nil data.
\<close>

theorem GetContentAsYAMLNode_uses_available_tree_witness:
  "GetContentAsYAMLNode demo_env 0 (mk_store ((demo_file ''a: 1'')\<lparr>parsed := Some 3\<rparr>) (demo_index None))
     = (Inr 3, mk_store ((demo_file ''a: 1'')\<lparr>parsed := Some 3\<rparr>) (demo_index None))
   \<and> GetContentAsYAMLNode demo_env 0 (mk_store ((demo_file ''a: 1'')\<lparr>index := Some 0\<rparr>) (demo_index (Some 4)))
     = (Inr 4, mk_store ((demo_file ''a: 1'')\<lparr>index := Some 0\<rparr>) (demo_index (Some 4)))
   \<and> root (indexes (snd (GetContentAsYAMLNode demo_env 0
                (mk_store ((demo_file ''a: 1'')\<lparr>index := Some 0\<rparr>) (demo_index None)))) 0) = Some 5
   \<and> trace (snd (GetContentAsYAMLNode demo_env 0
                (mk_store ((demo_file ''a: 1'')\<lparr>index := Some 0\<rparr>) (demo_index None)))) = [Unmarshal ''a: 1'']
   \<and> GetContentAsYAMLNode demo_env 0 (mk_store ((demo_file ''a: 1'')\<lparr>data := None\<rparr>) (demo_index None))
     = (Inl (Errorf ''no data to parse for file: /specs/a.yaml''),
        mk_store ((demo_file ''a: 1'')\<lparr>data := None\<rparr>) (demo_index None))"
  using
    GetContentAsYAMLNode_uses_available_tree [of "mk_store ((demo_file ''a: 1'')\<lparr>parsed := Some 3\<rparr>) (demo_index None)" 0 3 demo_env]
    GetContentAsYAMLNode_uses_available_tree [of "mk_store ((demo_file ''a: 1'')\<lparr>index := Some 0\<rparr>) (demo_index (Some 4))" 0 4 demo_env 0]
    GetContentAsYAMLNode_uses_available_tree [of "mk_store ((demo_file ''a: 1'')\<lparr>index := Some 0\<rparr>) (demo_index None)" 0 _ demo_env 0 "''a: 1''" "Node 1 ''a: 1'' []"]
    GetContentAsYAMLNode_uses_available_tree [of "mk_store ((demo_file ''a: 1'')\<lparr>data := None\<rparr>) (demo_index None)" 0 _ demo_env]
  by (simp add: demo_defs index_root_def)

section \<open>Facts about paths, Open and Read\<close>

lemma IsAbs_Cons: "IsAbs p \<longleftrightarrow> (\<exists>cs. p = CHR ''/'' # cs)"
  by (cases p) (auto simp: IsAbs_def HasPrefix_def)

lemma IsAbs_Clean: "IsAbs p \<Longrightarrow> IsAbs (Clean p)"
  by (auto simp: IsAbs_Cons Clean_def Let_def)

lemma IsAbs_Join: "IsAbs a \<Longrightarrow> IsAbs (Join a b)"
proof -
  assume a: "IsAbs a"
  then have "a \<noteq> []" and "IsAbs (a @ ''/'' @ b)" by (auto simp: IsAbs_Cons)
  then show ?thesis by (simp add: Join_def IsAbs_Clean)
qed

lemma Abs_IsAbs: "IsAbs p \<Longrightarrow> Abs E p = Inr (Clean p)"
  by (simp add: Abs_def)

lemma Open_name_relative:
  "IsAbs (baseDirectory fs) \<Longrightarrow> \<not> IsAbs nm \<Longrightarrow>
   Open_name E fs nm = Inr (Clean (Join (baseDirectory fs) nm))"
  by (simp add: Open_name_def Abs_IsAbs IsAbs_Join)

lemma Open_found:
  "Open_name E fs nm = Inr k \<Longrightarrow> Files fs k = Some f \<Longrightarrow>
   Open E fs nm s =
     (Inr (nextHandle s),
      s\<lparr>handles := (handles s)(nextHandle s := \<lparr>rf = f, offset = 0\<rparr>), nextHandle := Suc (nextHandle s)\<rparr>)"
  by (simp add: Open_def new_handle_def)

lemma Open_not_found:
  "Open_name E fs nm = Inr k \<Longrightarrow> Files fs k = None \<Longrightarrow>
   Open E fs nm s = (Inl (PathError ''open'' k ErrNotExist), s)"
  by (simp add: Open_def)

lemma Open_abs_error:
  "Open_name E fs nm = Inl err \<Longrightarrow> Open E fs nm s = (Inl err, s)"
  by (simp add: Open_def)

lemma Open_success:
  assumes "Open E fs nm s = (Inr r, s1)"
  shows "\<exists>k f. Open_name E fs nm = Inr k \<and> Files fs k = Some f \<and> r = nextHandle s
     \<and> s1 = s\<lparr>handles := (handles s)(nextHandle s := \<lparr>rf = f, offset = 0\<rparr>), nextHandle := Suc (nextHandle s)\<rparr>"
  using assms
  by (auto simp: Open_def new_handle_def split: sum.splits option.splits)

lemma demo_names:
  "Open_name demo_env demo_fs ''a.yaml'' = Inr ''/specs/a.yaml''"
  "Open_name demo_env demo_fs ''sub/../a.yaml'' = Inr ''/specs/a.yaml''"
  "Open_name demo_env demo_fs ''/specs/./a.yaml'' = Inr ''/specs/./a.yaml''"
  "Open_name demo_env demo_fs ''b.yaml'' = Inr ''/specs/b.yaml''"
  "Open_name demo_env demo_fs ''/specs/a.yaml'' = Inr ''/specs/a.yaml''"
  "Abs demo_env ''/specs/./a.yaml'' = Inr ''/specs/a.yaml''"
  by (simp_all add: Open_name_def demo_fs_def Abs_def Join_def Clean_def IsAbs_def HasPrefix_def Let_def)

lemma Read_eof:
  "offset (handles s r) \<ge> int (length (GetContent (files s (rf (handles s r))))) \<Longrightarrow>
   Read r b s = ((0, b, Some EOF), s)"
  by (simp add: Read_def Let_def)

lemma Read_invalid:
  "offset (handles s r) < 0 \<Longrightarrow>
   Read r b s = ((0, b, Some (PathError ''read'' (fullPath (files s (rf (handles s r)))) ErrInvalid)), s)"
  by (simp add: Read_def Let_def)

lemma Read_copy:
  assumes "0 \<le> offset (handles s r)"
    "offset (handles s r) < int (length (GetContent (files s (rf (handles s r)))))"
  shows "Read r b s =
     ((min (length b) (length (drop (nat (offset (handles s r))) (GetContent (files s (rf (handles s r)))))),
       take (min (length b) (length (drop (nat (offset (handles s r))) (GetContent (files s (rf (handles s r)))))))
            (drop (nat (offset (handles s r))) (GetContent (files s (rf (handles s r)))))
         @ drop (min (length b) (length (drop (nat (offset (handles s r))) (GetContent (files s (rf (handles s r))))))) b,
       None),
      s\<lparr>handles := (handles s)(r := (handles s r)\<lparr>offset := offset (handles s r)
          + int (min (length b) (length (drop (nat (offset (handles s r))) (GetContent (files s (rf (handles s r)))))))\<rparr>)\<rparr>)"
  using assms by (simp add: Read_def Let_def)

lemma Read_frame:
  "files (snd (Read r b s)) = files s"
  "r2 \<noteq> r \<Longrightarrow> handles (snd (Read r b s)) r2 = handles s r2"
  "rf (handles (snd (Read r b s)) r) = rf (handles s r)"
  by (simp_all add: Read_def Let_def)

lemma Open_fresh:
  assumes "Open E fs nm s = (Inr r, s1)"
  shows "r = nextHandle s \<and> nextHandle s1 = Suc r \<and> offset (handles s1 r) = 0
       \<and> files s1 = files s \<and> (\<forall>r'. r' \<noteq> r \<longrightarrow> handles s1 r' = handles s r')"
  using Open_success [OF assms] by auto

lemma two_handles_eq:
  "two_handles =
     (mk_store (demo_file ''a: 1'') (demo_index None))
       \<lparr>handles := (\<lambda>a. \<lparr>rf = 0, offset = 0\<rparr>), nextHandle := 2\<rparr>"
proof -
  have f: "Files demo_fs ''/specs/a.yaml'' = Some 0" by (simp add: demo_fs_def)
  have "(\<lambda>a. \<lparr>rf = 0::nat, offset = 0::int\<rparr>)(0 := \<lparr>rf = 0, offset = 0\<rparr>, Suc 0 := \<lparr>rf = 0, offset = 0\<rparr>)
      = (\<lambda>a. \<lparr>rf = 0, offset = 0\<rparr>)"
    by (rule ext) simp
  then show ?thesis
    unfolding two_handles_def
    by (simp add: Open_found [OF demo_names(1) f] Open_found [OF demo_names(5) f]
        mk_store_def numeral_2_eq_2)
qed

section \<open>The claims about Open and the handles\<close>

text \<open>
  Claim C5, as amended. \<^verbatim>\<open>Open\<close> looks the name up under a key: a name that is not
  absolute is joined to the base directory and made absolute, which cleans the
  \<^verbatim>\<open>.\<close> and \<^verbatim>\<open>..\<close> elements (with an absolute base directory that never fails); an
  absolute name is the key as it is written, without cleaning. When the file source
  has an entry under the key, the call returns a new handle on that record and
  changes no file, index or node; when it has none, the call fails with the
  not-exist path error that carries the key. Two names with the same key reach the
  same record, in particular a relative name and the absolute path it resolves to.
\<close>

theorem Open_by_resolved_name:
  "(IsAbs nm \<longrightarrow> Open_name E fs nm = Inr nm)
   \<and> (\<not> IsAbs nm \<longrightarrow> Open_name E fs nm = Abs E (Join (baseDirectory fs) nm))
   \<and> (\<not> IsAbs nm \<and> IsAbs (baseDirectory fs) \<longrightarrow>
         Open_name E fs nm = Inr (Clean (Join (baseDirectory fs) nm)))
   \<and> (Open_name E fs nm = Inr k \<and> Files fs k = Some f \<longrightarrow>
         fst (Open E fs nm s) = Inr (nextHandle s)
       \<and> rf (handles (snd (Open E fs nm s)) (nextHandle s)) = f
       \<and> files (snd (Open E fs nm s)) = files s
       \<and> indexes (snd (Open E fs nm s)) = indexes s
       \<and> nodes (snd (Open E fs nm s)) = nodes s)
   \<and> (Open_name E fs nm = Inr k \<and> Files fs k = None \<longrightarrow>
         Open E fs nm s = (Inl (PathError ''open'' k ErrNotExist), s))
   \<and> (Open_name E fs nm = Inr k \<and> Open_name E fs nm2 = Inr k \<longrightarrow>
         (\<forall>r. fst (Open E fs nm s) = Inr r \<longrightarrow>
            (\<exists>r2. fst (Open E fs nm2 s2) = Inr r2
               \<and> rf (handles (snd (Open E fs nm2 s2)) r2) = rf (handles (snd (Open E fs nm s)) r))))"
proof (intro conjI impI allI)
  show "Open_name E fs nm = Inr nm" if "IsAbs nm" using that by (simp add: Open_name_def)
  show "Open_name E fs nm = Abs E (Join (baseDirectory fs) nm)" if "\<not> IsAbs nm"
    using that by (simp add: Open_name_def)
  show "Open_name E fs nm = Inr (Clean (Join (baseDirectory fs) nm))"
    if "\<not> IsAbs nm \<and> IsAbs (baseDirectory fs)"
    using that by (simp add: Open_name_relative)
next
  assume a: "Open_name E fs nm = Inr k \<and> Files fs k = Some f"
  then have o: "Open E fs nm s =
     (Inr (nextHandle s),
      s\<lparr>handles := (handles s)(nextHandle s := \<lparr>rf = f, offset = 0\<rparr>), nextHandle := Suc (nextHandle s)\<rparr>)"
    by (simp add: Open_found)
  show "fst (Open E fs nm s) = Inr (nextHandle s)" by (simp add: o)
  show "rf (handles (snd (Open E fs nm s)) (nextHandle s)) = f" by (simp add: o)
  show "files (snd (Open E fs nm s)) = files s" by (simp add: o)
  show "indexes (snd (Open E fs nm s)) = indexes s" by (simp add: o)
  show "nodes (snd (Open E fs nm s)) = nodes s" by (simp add: o)
next
  assume "Open_name E fs nm = Inr k \<and> Files fs k = None"
  then show "Open E fs nm s = (Inl (PathError ''open'' k ErrNotExist), s)"
    by (simp add: Open_not_found)
next
  fix r
  assume a: "Open_name E fs nm = Inr k \<and> Open_name E fs nm2 = Inr k"
    and b: "fst (Open E fs nm s) = Inr r"
  from b have "Open E fs nm s = (Inr r, snd (Open E fs nm s))" by (simp add: prod_eq_iff)
  from Open_success [OF this] a obtain f where f: "Files fs k = Some f"
    and r: "rf (handles (snd (Open E fs nm s)) r) = f"
    by auto
  from a f have "Open E fs nm2 s2 =
     (Inr (nextHandle s2),
      s2\<lparr>handles := (handles s2)(nextHandle s2 := \<lparr>rf = f, offset = 0\<rparr>), nextHandle := Suc (nextHandle s2)\<rparr>)"
    by (simp add: Open_found)
  with r show "\<exists>r2. fst (Open E fs nm2 s2) = Inr r2
               \<and> rf (handles (snd (Open E fs nm2 s2)) r2) = rf (handles (snd (Open E fs nm s)) r)"
    by simp
qed

text \<open>
  The names \<^verbatim>\<open>a.yaml\<close>, \<^verbatim>\<open>sub/../a.yaml\<close> and \<^verbatim>\<open>/specs/a.yaml\<close> reach the record
  at address 0; \<^verbatim>\<open>b.yaml\<close> is not found under \<^verbatim>\<open>/specs/b.yaml\<close>.
\<close>

theorem Open_by_resolved_name_witness:
  "Open_name demo_env demo_fs ''a.yaml'' = Inr ''/specs/a.yaml''
   \<and> Open_name demo_env demo_fs ''/specs/a.yaml'' = Inr ''/specs/a.yaml''
   \<and> fst (Open demo_env demo_fs ''a.yaml'' (mk_store (demo_file ''a: 1'') (demo_index None))) = Inr 0
   \<and> rf (handles (snd (Open demo_env demo_fs ''a.yaml'' (mk_store (demo_file ''a: 1'') (demo_index None)))) 0) = 0
   \<and> Open demo_env demo_fs ''b.yaml'' (mk_store (demo_file ''a: 1'') (demo_index None))
       = (Inl (PathError ''open'' ''/specs/b.yaml'' ErrNotExist), mk_store (demo_file ''a: 1'') (demo_index None))
   \<and> (\<exists>r2. fst (Open demo_env demo_fs ''sub/../a.yaml'' (mk_store (demo_file ''a: 1'') (demo_index None))) = Inr r2
         \<and> rf (handles (snd (Open demo_env demo_fs ''sub/../a.yaml'' (mk_store (demo_file ''a: 1'') (demo_index None)))) r2) = 0)"
proof -
  let ?s = "mk_store (demo_file ''a: 1'') (demo_index None)"
  have f: "Files demo_fs ''/specs/a.yaml'' = Some 0" "Files demo_fs ''/specs/b.yaml'' = None"
    "IsAbs ''/specs/a.yaml''" "\<not> IsAbs ''a.yaml''" "IsAbs (baseDirectory demo_fs)"
    "nextHandle ?s = 0"
    by (simp_all add: demo_fs_def IsAbs_def HasPrefix_def mk_store_def)
  note t1 = Open_by_resolved_name [of "''a.yaml''" demo_env demo_fs "''/specs/a.yaml''" 0 ?s "''sub/../a.yaml''" ?s]
  note t2 = Open_by_resolved_name [of "''/specs/a.yaml''" demo_env demo_fs "''/specs/a.yaml''" 0 ?s "''a.yaml''" ?s]
  note t3 = Open_by_resolved_name [of "''b.yaml''" demo_env demo_fs "''/specs/b.yaml''" 0 ?s "''a.yaml''" ?s]
  from t2 f have a: "Open_name demo_env demo_fs ''/specs/a.yaml'' = Inr ''/specs/a.yaml''" by blast
  from t1 f demo_names have b: "fst (Open demo_env demo_fs ''a.yaml'' ?s) = Inr 0"
    "rf (handles (snd (Open demo_env demo_fs ''a.yaml'' ?s)) 0) = 0"
    by simp_all
  from t1 b demo_names
  have c: "\<exists>r2. fst (Open demo_env demo_fs ''sub/../a.yaml'' ?s) = Inr r2
         \<and> rf (handles (snd (Open demo_env demo_fs ''sub/../a.yaml'' ?s)) r2) = 0"
    by simp
  from t3 f demo_names
  have d: "Open demo_env demo_fs ''b.yaml'' ?s = (Inl (PathError ''open'' ''/specs/b.yaml'' ErrNotExist), ?s)"
    by simp
  from a b c d demo_names show ?thesis by simp
qed

text \<open>
  The claim as stated fails for an absolute name that is not clean: \<^verbatim>\<open>/specs/./a.yaml\<close>
  and \<^verbatim>\<open>a.yaml\<close> both normalize to the absolute path \<^verbatim>\<open>/specs/a.yaml\<close>, the first
  is not found and the second is.
\<close>

theorem Open_identity_counterexample:
  "Abs demo_env ''/specs/./a.yaml'' = Inr ''/specs/a.yaml''
   \<and> Open_name demo_env demo_fs ''a.yaml'' = Inr ''/specs/a.yaml''
   \<and> fst (Open demo_env demo_fs ''a.yaml'' (mk_store (demo_file ''a: 1'') (demo_index None))) = Inr 0
   \<and> fst (Open demo_env demo_fs ''/specs/./a.yaml'' (mk_store (demo_file ''a: 1'') (demo_index None)))
       = Inl (PathError ''open'' ''/specs/./a.yaml'' ErrNotExist)"
proof -
  have f: "Files demo_fs ''/specs/a.yaml'' = Some 0" "Files demo_fs ''/specs/./a.yaml'' = None"
    by (simp_all add: demo_fs_def)
  show ?thesis
    using Open_found [OF demo_names(1) f(1)] Open_not_found [OF demo_names(3) f(2)] demo_names
    by (simp add: mk_store_def)
qed

text \<open>
  Claim C6. A successful \<^verbatim>\<open>Open\<close> returns the next unused handle address, with
  offset 0, and leaves every other handle and every file as it is; a later \<^verbatim>\<open>Open\<close>
  returns another address and does not touch the first handle. \<^verbatim>\<open>Read\<close> on a handle
  whose offset lies inside the content copies as many bytes as the buffer and the
  rest of the content allow, from the offset on, to the front of the buffer, returns
  that count without error and moves the offset by it. At an offset that has reached
  the length of the content it returns 0 and \<^verbatim>\<open>EOF\<close>, at a negative offset 0 and the
  invalid-argument path error, and changes nothing. No \<^verbatim>\<open>Read\<close> changes another
  handle, the record its handle stands for, or any file.
\<close>

theorem handle_read_cursor:
  "(Open E fs nm s = (Inr r1, s1) \<longrightarrow>
        r1 = nextHandle s \<and> nextHandle s1 = Suc r1 \<and> offset (handles s1 r1) = 0
      \<and> files s1 = files s
      \<and> (\<forall>r'. r' \<noteq> r1 \<longrightarrow> handles s1 r' = handles s r')
      \<and> (\<forall>nm2 r2 s2. Open E fs nm2 s1 = (Inr r2, s2) \<longrightarrow> r2 \<noteq> r1 \<and> handles s2 r1 = handles s1 r1))
   \<and> (0 \<le> offset (handles s r) \<and> offset (handles s r) < int (length (content_of s r)) \<longrightarrow>
        fst (fst (Read r b s)) = min (length b) (length (content_of s r) - nat (offset (handles s r)))
      \<and> fst (snd (fst (Read r b s)))
          = take (fst (fst (Read r b s))) (drop (nat (offset (handles s r))) (content_of s r))
            @ drop (fst (fst (Read r b s))) b
      \<and> snd (snd (fst (Read r b s))) = None
      \<and> offset (handles (snd (Read r b s)) r) = offset (handles s r) + int (fst (fst (Read r b s))))
   \<and> (offset (handles s r) \<ge> int (length (content_of s r)) \<longrightarrow> Read r b s = ((0, b, Some EOF), s))
   \<and> (offset (handles s r) < 0 \<longrightarrow>
        Read r b s = ((0, b, Some (PathError ''read'' (fullPath (files s (rf (handles s r)))) ErrInvalid)), s))
   \<and> (\<forall>r'. r' \<noteq> r \<longrightarrow> handles (snd (Read r b s)) r' = handles s r')
   \<and> rf (handles (snd (Read r b s)) r) = rf (handles s r)
   \<and> files (snd (Read r b s)) = files s"
proof (intro conjI impI allI)
  assume a: "Open E fs nm s = (Inr r1, s1)"
  note f = Open_fresh [OF a]
  from f show "r1 = nextHandle s" by blast
  from f show "nextHandle s1 = Suc r1" by blast
  from f show "offset (handles s1 r1) = 0" by blast
  from f show "files s1 = files s" by blast
  show "handles s1 r' = handles s r'" if "r' \<noteq> r1" for r' using f that by blast
  fix nm2 r2 s2 assume b: "Open E fs nm2 s1 = (Inr r2, s2)"
  note g = Open_fresh [OF b]
  from f g show d: "r2 \<noteq> r1" by simp
  from g d show "handles s2 r1 = handles s1 r1" by metis
next
  assume a: "0 \<le> offset (handles s r) \<and> offset (handles s r) < int (length (content_of s r))"
  then have c: "0 \<le> offset (handles s r)"
    "offset (handles s r) < int (length (GetContent (files s (rf (handles s r)))))"
    by (simp_all add: content_of_def)
  note e = Read_copy [OF c, of b]
  show n: "fst (fst (Read r b s)) = min (length b) (length (content_of s r) - nat (offset (handles s r)))"
    by (simp add: e content_of_def)
  show "fst (snd (fst (Read r b s)))
          = take (fst (fst (Read r b s))) (drop (nat (offset (handles s r))) (content_of s r))
            @ drop (fst (fst (Read r b s))) b"
    by (simp add: e content_of_def)
  show "snd (snd (fst (Read r b s))) = None" by (simp add: e)
  show "offset (handles (snd (Read r b s)) r) = offset (handles s r) + int (fst (fst (Read r b s)))"
    by (simp add: e)
next
  show "Read r b s = ((0, b, Some EOF), s)" if "offset (handles s r) \<ge> int (length (content_of s r))"
    using that by (simp add: Read_eof content_of_def)
  show "Read r b s = ((0, b, Some (PathError ''read'' (fullPath (files s (rf (handles s r)))) ErrInvalid)), s)"
    if "offset (handles s r) < 0"
    using that by (rule Read_invalid)
  show "handles (snd (Read r b s)) r' = handles s r'" if "r' \<noteq> r" for r'
    using that by (rule Read_frame)
  show "rf (handles (snd (Read r b s)) r) = rf (handles s r)" by (rule Read_frame)
  show "files (snd (Read r b s)) = files s" by (rule Read_frame)
qed

text \<open>
  Two handles on the content \<^verbatim>\<open>a: 1\<close>: a read of two bytes on the first moves only
  the first; at offset 4 the read ends the stream, at offset -1 it is invalid.
\<close>

theorem handle_read_cursor_witness:
  "fst (Open demo_env demo_fs ''a.yaml'' (mk_store (demo_file ''a: 1'') (demo_index None))) = Inr 0
   \<and> offset (handles (snd (Open demo_env demo_fs ''a.yaml'' (mk_store (demo_file ''a: 1'') (demo_index None)))) 0) = 0
   \<and> fst (Read 0 ''xx'' two_handles) = (2, ''a:'', None)
   \<and> offset (handles (snd (Read 0 ''xx'' two_handles)) 0) = 2
   \<and> offset (handles (snd (Read 0 ''xx'' two_handles)) 1) = 0
   \<and> fst (Read 0 ''xx'' (two_handles\<lparr>handles := (\<lambda>a. \<lparr>rf = 0, offset = 4\<rparr>)\<rparr>)) = (0, ''xx'', Some EOF)
   \<and> fst (Read 0 ''xx'' (two_handles\<lparr>handles := (\<lambda>a. \<lparr>rf = 0, offset = - 1\<rparr>)\<rparr>))
       = (0, ''xx'', Some (PathError ''read'' ''/specs/a.yaml'' ErrInvalid))"
proof -
  let ?s = "mk_store (demo_file ''a: 1'') (demo_index None)"
  let ?e = "two_handles\<lparr>handles := (\<lambda>a. \<lparr>rf = 0, offset = 4\<rparr>)\<rparr>"
  let ?i = "two_handles\<lparr>handles := (\<lambda>a. \<lparr>rf = 0, offset = - 1\<rparr>)\<rparr>"
  have f: "Files demo_fs ''/specs/a.yaml'' = Some 0" by (simp add: demo_fs_def)
  have o: "Open demo_env demo_fs ''a.yaml'' ?s = (Inr 0, snd (Open demo_env demo_fs ''a.yaml'' ?s))"
    by (simp add: Open_found [OF demo_names(1) f] mk_store_def)
  have o1: "fst (Open demo_env demo_fs ''a.yaml'' ?s) = Inr 0"
    by (simp add: Open_found [OF demo_names(1) f] mk_store_def)
  have c: "content_of two_handles 0 = ''a: 1''" "content_of ?e 0 = ''a: 1''" "content_of ?i 0 = ''a: 1''"
    "offset (handles two_handles 0) = 0" "offset (handles two_handles 1) = 0"
    "offset (handles ?e 0) = 4" "offset (handles ?i 0) = - 1"
    "fullPath (files ?i (rf (handles ?i 0))) = ''/specs/a.yaml''"
    by (simp_all add: two_handles_eq content_of_def GetContent_def mk_store_def demo_file_def)
  from handle_read_cursor [of demo_env demo_fs "''a.yaml''" ?s 0 "snd (Open demo_env demo_fs ''a.yaml'' ?s)"] o
  have a: "offset (handles (snd (Open demo_env demo_fs ''a.yaml'' ?s)) 0) = 0" by blast
  note t = handle_read_cursor [where s = "two_handles" and r = 0 and b = "''xx''"]
  from t c have n: "fst (fst (Read 0 ''xx'' two_handles)) = 2" by simp
  from t c n have b: "fst (snd (fst (Read 0 ''xx'' two_handles))) = ''a:''"
    "snd (snd (fst (Read 0 ''xx'' two_handles))) = None"
    "offset (handles (snd (Read 0 ''xx'' two_handles)) 0) = 2"
    by (simp_all add: numeral_2_eq_2)
  from n b have r: "fst (Read 0 ''xx'' two_handles) = (2, ''a:'', None)"
    by (simp add: prod_eq_iff)
  from t have "handles (snd (Read 0 ''xx'' two_handles)) 1 = handles two_handles 1" by simp
  with c have i: "offset (handles (snd (Read 0 ''xx'' two_handles)) 1) = 0" by simp
  from handle_read_cursor [where s = "?e" and r = 0 and b = "''xx''"] c
  have e: "Read 0 ''xx'' ?e = ((0, ''xx'', Some EOF), ?e)" by simp
  from handle_read_cursor [where s = "?i" and r = 0 and b = "''xx''"] c
  have v: "Read 0 ''xx'' ?i = ((0, ''xx'', Some (PathError ''read'' ''/specs/a.yaml'' ErrInvalid)), ?i)"
    by simp
  from o1 a r b i e v show ?thesis by simp
qed

section \<open>Facts about the walk and its callback\<close>

lemma walkFn_error: "walkFn E c (p, d, Some e) w = Inl e"
  by (simp add: walkFn_def)

lemma walkFn_skipped: "skipped c p d \<Longrightarrow> walkFn E c (p, d, None) w = Inr w"
  by (simp add: walkFn_def)

lemma walkFn_unsupported:
  "ExtractFileType E p = UNSUPPORTED \<Longrightarrow> walkFn E c (p, d, None) w = Inr w"
  by (simp add: walkFn_def split: sum.splits)

lemma walkFn_collect:
  "\<not> skipped c p d \<Longrightarrow> ExtractFileType E p \<noteq> UNSUPPORTED \<Longrightarrow>
   Abs E (Join (BaseDirectory c) p) = Inr k \<Longrightarrow>
   walkFn E c (p, d, None) w = Inr (collect E c p k [] w)"
  by (cases "ExtractFileType E p") (simp_all add: walkFn_def)

lemma walkFn_collect_abs_error:
  "\<not> skipped c p d \<Longrightarrow> ExtractFileType E p \<noteq> UNSUPPORTED \<Longrightarrow>
   Abs E (Join (BaseDirectory c) p) = Inl e \<Longrightarrow>
   walkFn E c (p, d, None) w = Inr (collect E c p [] [e] w)"
  by (cases "ExtractFileType E p") (simp_all add: walkFn_def)

lemma walkFn_no_error: "\<exists>w1. walkFn E c (p, d, None) w = Inr w1"
  by (cases "ExtractFileType E p")
     (auto simp: walkFn_def Let_def split: sum.splits prod.splits)

lemma walkFn_Inl: "walkFn E c we w = Inl e \<Longrightarrow> snd (snd we) = Some e"
  by (cases we; cases "ExtractFileType E (fst we)")
     (auto simp: walkFn_def Let_def split: sum.splits prod.splits option.splits if_splits)

lemma WalkDir_no_errors:
  "\<forall>we \<in> set wes. snd (snd we) = None \<Longrightarrow> \<exists>w1. WalkDir wes (walkFn E c) w = Inr w1"
proof (induction wes arbitrary: w)
  case Nil
  then show ?case by simp
next
  case (Cons we wes)
  obtain p d where we: "we = (p, d, None)" using Cons.prems by (cases we) auto
  obtain w1 where "walkFn E c (p, d, None) w = Inr w1" using walkFn_no_error by blast
  with we Cons show ?case by simp
qed

lemma WalkDir_first_error:
  "\<forall>we \<in> set pre. snd (snd we) = None \<Longrightarrow>
   WalkDir (pre @ (p, d, Some e) # post) (walkFn E c) w = Inl e"
proof (induction pre arbitrary: w)
  case Nil
  then show ?case by (simp add: walkFn_error)
next
  case (Cons we pre)
  obtain q dq where we: "we = (q, dq, None)" using Cons.prems by (cases we) auto
  obtain w1 where "walkFn E c (q, dq, None) w = Inr w1" using walkFn_no_error by blast
  with we Cons show ?case by simp
qed

lemma WalkDir_Inl:
  "WalkDir wes (walkFn E c) w = Inl e \<Longrightarrow> \<exists>p d. (p, d, Some e) \<in> set wes"
proof (induction wes arbitrary: w)
  case Nil
  then show ?case by simp
next
  case (Cons we wes)
  show ?case
  proof (cases "walkFn E c we w")
    case (Inl e')
    with Cons.prems have "e' = e" by simp
    with Inl have "snd (snd we) = Some e" by (simp add: walkFn_Inl)
    then have "we = (fst we, fst (snd we), Some e)" by (simp add: prod_eq_iff)
    then show ?thesis by (metis list.set_intros(1))
  next
    case (Inr w1)
    with Cons.prems have "WalkDir wes (walkFn E c) w1 = Inl e" by simp
    from Cons.IH [OF this] show ?thesis by auto
  qed
qed

lemma demo_Abs:
  "Abs E ''/specs'' = Inr ''/specs''"
  by (simp add: Abs_def Clean_def IsAbs_def HasPrefix_def Let_def)

lemma demo_config_simps:
  "BaseDirectory (demo_config base fl walk) = base"
  "FileFilters (demo_config base fl walk) = fl"
  "fsWalk (DirFS (demo_config base fl walk)) = walk"
  by (simp_all add: demo_config_def demo_dirfs_def)

lemma collect_open_error:
  "fsOpen (DirFS c) p = Inl e \<Longrightarrow> collect E c p k errs w = w\<lparr>allErrors := allErrors w @ [e]\<rparr>"
  by (simp add: collect_def)

lemma collect_read_error:
  "fsOpen (DirFS c) p = Inr f \<Longrightarrow> ReadAll f = (bs, Some e) \<Longrightarrow>
   collect E c p k errs w
     = w\<lparr>allErrors := allErrors w @ (case snd (Stat f) of None \<Rightarrow> [] | Some x \<Rightarrow> [x]) @ [e]\<rparr>"
  by (cases "Stat f") (simp add: collect_def split: option.splits)

lemma collect_ok:
  "fsOpen (DirFS c) p = Inr f \<Longrightarrow> ReadAll f = (bs, None) \<Longrightarrow>
   collect E c p k errs w
     = w\<lparr>localFiles := (localFiles w)(k \<mapsto> nextFile (heap w)),
         allErrors := allErrors w @ (case snd (Stat f) of None \<Rightarrow> [] | Some x \<Rightarrow> [x]),
         heap := (heap w)\<lparr>files := (files (heap w))(nextFile (heap w) :=
                     \<lparr>filename = p, name = Base p, extension = ExtractFileType E p,
                      data = Some bs, fullPath = k,
                      lastModified = (case fst (Stat f) of None \<Rightarrow> Now E p | Some fi \<Rightarrow> ModTime fi),
                      readingErrors = errs @ (case snd (Stat f) of None \<Rightarrow> [] | Some x \<Rightarrow> [x]),
                      index = None, parsed = None\<rparr>),
                   nextFile := Suc (nextFile (heap w))\<rparr>\<rparr>"
  by (cases "Stat f") (simp add: collect_def new_file_def split: option.splits)

lemma collect_inv:
  assumes inv: "\<forall>k a. localFiles w k = Some a \<longrightarrow> a < nextFile (heap w) \<and> P (files (heap w) a) k"
    and new: "\<And>lf. filename lf = p \<Longrightarrow> fullPath lf = kp \<Longrightarrow> P lf kp"
  shows "\<forall>k a. localFiles (collect E c p kp errs w) k = Some a \<longrightarrow>
           a < nextFile (heap (collect E c p kp errs w))
         \<and> P (files (heap (collect E c p kp errs w)) a) k"
proof (cases "fsOpen (DirFS c) p")
  case (Inl e)
  with inv show ?thesis by (simp add: collect_open_error)
next
  case (Inr f)
  obtain bs re where r: "ReadAll f = (bs, re)" by (cases "ReadAll f")
  show ?thesis
  proof (cases re)
    case (Some e)
    with Inr r inv show ?thesis by (simp add: collect_read_error)
  next
    case None
    note ok = collect_ok [OF Inr r [unfolded None], of E kp errs w]
    show ?thesis
    proof (intro allI impI)
      fix k a assume l: "localFiles (collect E c p kp errs w) k = Some a"
      show "a < nextFile (heap (collect E c p kp errs w))
         \<and> P (files (heap (collect E c p kp errs w)) a) k"
      proof (cases "k = kp")
        case True
        with l have "a = nextFile (heap w)" by (simp add: ok)
        with True show ?thesis by (simp add: ok new)
      next
        case False
        with l have "localFiles w k = Some a" by (simp add: ok)
        with inv have "a < nextFile (heap w)" "P (files (heap w) a) k" by simp_all
        then show ?thesis by (simp add: ok)
      qed
    qed
  qed
qed

lemma walkFn_inv:
  assumes step: "walkFn E c (p, d, err) w = Inr w1"
    and inv: "\<forall>k a. localFiles w k = Some a \<longrightarrow> a < nextFile (heap w) \<and> P (files (heap w) a) k"
    and new: "\<And>lf k. \<not> skipped c p d \<Longrightarrow> ExtractFileType E p \<noteq> UNSUPPORTED \<Longrightarrow> err = None \<Longrightarrow>
                filename lf = p \<Longrightarrow> fullPath lf = k \<Longrightarrow> P lf k"
  shows "\<forall>k a. localFiles w1 k = Some a \<longrightarrow> a < nextFile (heap w1) \<and> P (files (heap w1) a) k"
proof -
  from step have err: "err = None" by (cases err) (simp_all add: walkFn_error)
  show ?thesis
  proof (cases "skipped c p d \<or> ExtractFileType E p = UNSUPPORTED")
    case True
    with step err have "w1 = w" by (auto simp: walkFn_skipped walkFn_unsupported)
    with inv show ?thesis by simp
  next
    case False
    then have n: "\<not> skipped c p d" "ExtractFileType E p \<noteq> UNSUPPORTED" by simp_all
    show ?thesis
    proof (cases "Abs E (Join (BaseDirectory c) p)")
      case (Inl e)
      from step err walkFn_collect_abs_error [OF n Inl] have "w1 = collect E c p [] [e] w" by simp
      with collect_inv [OF inv, of p "[]" E c "[e]"] new [OF n err] show ?thesis by simp
    next
      case (Inr k)
      from step err walkFn_collect [OF n Inr] have "w1 = collect E c p k [] w" by simp
      with collect_inv [OF inv, of p k E c "[]"] new [OF n err] show ?thesis by simp
    qed
  qed
qed

lemma WalkDir_inv:
  assumes "WalkDir wes (walkFn E c) w = Inr w1"
    and "\<forall>k a. localFiles w k = Some a \<longrightarrow> a < nextFile (heap w) \<and> P (files (heap w) a) k"
    and "\<And>p d lf k. (p, d, None) \<in> set wes \<Longrightarrow> \<not> skipped c p d \<Longrightarrow>
            ExtractFileType E p \<noteq> UNSUPPORTED \<Longrightarrow> filename lf = p \<Longrightarrow> fullPath lf = k \<Longrightarrow> P lf k"
  shows "\<forall>k a. localFiles w1 k = Some a \<longrightarrow> a < nextFile (heap w1) \<and> P (files (heap w1) a) k"
  using assms
proof (induction wes arbitrary: w)
  case Nil
  then show ?case by simp
next
  case (Cons we wes)
  obtain p d err where we: "we = (p, d, err)" by (cases we)
  from Cons.prems(1) obtain w2 where s: "walkFn E c (p, d, err) w = Inr w2"
    and r: "WalkDir wes (walkFn E c) w2 = Inr w1"
    by (auto simp: we split: sum.splits)
  have i2: "\<forall>k a. localFiles w2 k = Some a \<longrightarrow> a < nextFile (heap w2) \<and> P (files (heap w2) a) k"
  proof (rule walkFn_inv [OF s Cons.prems(2)])
    fix lf :: LocalFile and k assume "\<not> skipped c p d" "ExtractFileType E p \<noteq> UNSUPPORTED" "err = None"
      "filename lf = p" "fullPath lf = k"
    then show "P lf k" using Cons.prems(3) [of p d lf k] by (simp add: we)
  qed
  show ?case
  proof (rule Cons.IH [OF r i2])
    fix p d and lf :: LocalFile and k assume "(p, d, None) \<in> set wes" "\<not> skipped c p d" "ExtractFileType E p \<noteq> UNSUPPORTED"
      "filename lf = p" "fullPath lf = k"
    then show "P lf k" using Cons.prems(3) [of p d lf k] by simp
  qed
qed

lemma skipped_iff:
  "skipped c p d \<longleftrightarrow>
     (case d of None \<Rightarrow> True | Some de \<Rightarrow> IsDir de)
     \<or> (length (Ext (BaseDirectory c)) > 2 \<and> p \<noteq> Base (BaseDirectory c))
     \<or> HasPrefix p ''.''
     \<or> (FileFilters c \<noteq> [] \<and> p \<notin> set (FileFilters c))"
  by (simp add: skipped_def)

lemma demo_fsOpen:
  "fsOpen (DirFS (demo_config b fl wk)) p = fsOpen (demo_dirfs []) p"
  by (simp add: demo_config_def demo_dirfs_def)

lemma demo_skip_dir: "walkFn E (demo_config b fl wk) (p, a_dir, None) w = Inr w"
  by (simp add: walkFn_skipped skipped_def a_dir_def)

lemma demo_classify:
  "ExtractFileType demo_env ''a.yaml'' = YAML"
  "ExtractFileType demo_env ''b.yaml'' = YAML"
  "ExtractFileType demo_env ''c.json'' = JSON"
  "ExtractFileType demo_env ''locked.yaml'' = YAML"
  "ExtractFileType demo_env ''cut.yaml'' = YAML"
  "ExtractFileType demo_env ''nostat.yaml'' = YAML"
  "ExtractFileType demo_env ''sub/.hidden.yaml'' = YAML"
  "ExtractFileType demo_env ''notes.txt'' = UNSUPPORTED"
  by (simp_all add: demo_env_def HasSuffix_def)

lemma demo_Abs_Join:
  "Abs demo_env (Join ''/specs'' ''a.yaml'') = Inr ''/specs/a.yaml''"
  "Abs demo_env (Join ''/specs'' ''locked.yaml'') = Inr ''/specs/locked.yaml''"
  "Abs demo_env (Join ''/specs'' ''cut.yaml'') = Inr ''/specs/cut.yaml''"
  "Abs demo_env (Join ''/specs'' ''nostat.yaml'') = Inr ''/specs/nostat.yaml''"
  "Abs demo_env (Join ''/specs'' ''sub/.hidden.yaml'') = Inr ''/specs/sub/.hidden.yaml''"
  by (simp_all add: Abs_def Join_def Clean_def IsAbs_def HasPrefix_def Let_def)

lemma demo_not_skipped:
  "\<not> skipped (demo_config ''/specs'' [] wk) ''a.yaml'' a_file"
  "\<not> skipped (demo_config ''/specs'' [] wk) ''locked.yaml'' a_file"
  "\<not> skipped (demo_config ''/specs'' [] wk) ''cut.yaml'' a_file"
  "\<not> skipped (demo_config ''/specs'' [] wk) ''nostat.yaml'' a_file"
  "\<not> skipped (demo_config ''/specs'' [] wk) ''sub/.hidden.yaml'' a_file"
  "\<not> skipped (demo_config ''/specs'' [''a.yaml''] wk) ''a.yaml'' a_file"
  by (simp_all add: skipped_def demo_config_simps a_file_def Ext_def HasPrefix_def)

lemma demo_opened_files:
  "fsOpen (demo_dirfs []) ''a.yaml'' = Inr (demo_opened ''a: 1'')"
  "fsOpen (demo_dirfs []) ''sub/.hidden.yaml'' = Inr (demo_opened ''a: 1'')"
  "fsOpen (demo_dirfs []) ''locked.yaml'' = Inl (ErrExternal ''open locked.yaml: permission denied'')"
  "fsOpen (demo_dirfs []) ''cut.yaml''
     = Inr \<lparr>Stat = (Some \<lparr>ModTime = 42\<rparr>, None),
            ReadAll = (''a:'', Some (ErrExternal ''read cut.yaml: input/output error''))\<rparr>"
  "fsOpen (demo_dirfs []) ''nostat.yaml''
     = Inr \<lparr>Stat = (None, Some (ErrExternal ''stat nostat.yaml: stale handle'')),
            ReadAll = (''b: 2'', None)\<rparr>"
  by (simp_all add: demo_dirfs_def)

lemma demo_collect_ok:
  assumes "fsOpen (demo_dirfs []) p = Inr f" "ReadAll f = (bs, None)"
  shows "collect E (demo_config b fl wk) p k errs w
     = w\<lparr>localFiles := (localFiles w)(k \<mapsto> nextFile (heap w)),
         allErrors := allErrors w @ (case snd (Stat f) of None \<Rightarrow> [] | Some x \<Rightarrow> [x]),
         heap := (heap w)\<lparr>files := (files (heap w))(nextFile (heap w) :=
                     \<lparr>filename = p, name = Base p, extension = ExtractFileType E p,
                      data = Some bs, fullPath = k,
                      lastModified = (case fst (Stat f) of None \<Rightarrow> Now E p | Some fi \<Rightarrow> ModTime fi),
                      readingErrors = errs @ (case snd (Stat f) of None \<Rightarrow> [] | Some x \<Rightarrow> [x]),
                      index = None, parsed = None\<rparr>),
                   nextFile := Suc (nextFile (heap w))\<rparr>\<rparr>"
  using assms by (intro collect_ok) (simp_all add: demo_fsOpen)

lemma demo_walkFn_collect:
  assumes "\<not> skipped (demo_config b fl wk) p d" "ExtractFileType E p \<noteq> UNSUPPORTED"
    "Abs E (Join b p) = Inr k"
  shows "walkFn E (demo_config b fl wk) (p, d, None) w = Inr (collect E (demo_config b fl wk) p k [] w)"
  using assms by (intro walkFn_collect) (simp_all add: demo_config_simps)

lemma walk_hidden_result:
  "NewLocalFSWithConfig demo_env (demo_config ''/specs'' [] walk_hidden)
      (mk_store (demo_file ''a: 1'') (demo_index None))
   = Inr (\<lparr>entryPointDirectory = ''/specs'', baseDirectory = ''/specs'',
           Files = Map.empty(''/specs/sub/.hidden.yaml'' \<mapsto> 1), fsReadingErrors = [], filters = []\<rparr>,
          (mk_store (demo_file ''a: 1'') (demo_index None))
            \<lparr>files := (files (mk_store (demo_file ''a: 1'') (demo_index None)))(1 :=
                 \<lparr>filename = ''sub/.hidden.yaml'', name = ''.hidden.yaml'', extension = YAML,
                  data = Some ''a: 1'', fullPath = ''/specs/sub/.hidden.yaml'', lastModified = 42,
                  readingErrors = [], index = None, parsed = None\<rparr>),
              nextFile := 2\<rparr>)"
proof -
  have r: "ReadAll (demo_opened ''a: 1'') = (''a: 1'', None)" by (simp add: demo_opened_def)
  have b: "Base ''sub/.hidden.yaml'' = ''.hidden.yaml''" by (simp add: Base_def)
  have n: "ExtractFileType demo_env ''sub/.hidden.yaml'' \<noteq> UNSUPPORTED" by (simp add: demo_classify)
  show ?thesis
    by (simp add: NewLocalFSWithConfig_def demo_config_simps demo_Abs walk_hidden_def demo_skip_dir
        demo_walkFn_collect [OF demo_not_skipped(5) n demo_Abs_Join(5)]
        demo_collect_ok [OF demo_opened_files(2) r] b demo_classify demo_opened_def mk_store_def
        numeral_2_eq_2)
qed

lemma walk_three_result:
  "NewLocalFSWithConfig demo_env (demo_config ''/specs'' [''a.yaml''] walk_three)
      (mk_store (demo_file ''a: 1'') (demo_index None))
   = Inr (\<lparr>entryPointDirectory = ''/specs'', baseDirectory = ''/specs'',
           Files = Map.empty(''/specs/a.yaml'' \<mapsto> 1), fsReadingErrors = [], filters = []\<rparr>,
          (mk_store (demo_file ''a: 1'') (demo_index None))
            \<lparr>files := (files (mk_store (demo_file ''a: 1'') (demo_index None)))(1 :=
                 \<lparr>filename = ''a.yaml'', name = ''a.yaml'', extension = YAML,
                  data = Some ''a: 1'', fullPath = ''/specs/a.yaml'', lastModified = 42,
                  readingErrors = [], index = None, parsed = None\<rparr>),
              nextFile := 2\<rparr>)"
proof -
  have r: "ReadAll (demo_opened ''a: 1'') = (''a: 1'', None)" by (simp add: demo_opened_def)
  have b: "Base ''a.yaml'' = ''a.yaml''" by (simp add: Base_def)
  have n: "ExtractFileType demo_env ''a.yaml'' \<noteq> UNSUPPORTED" by (simp add: demo_classify)
  have k: "\<And>wk. skipped (demo_config ''/specs'' [''a.yaml''] wk) ''b.yaml'' a_file"
    "\<And>wk. skipped (demo_config ''/specs'' [''a.yaml''] wk) ''c.json'' a_file"
    by (simp_all add: skipped_def demo_config_simps)
  show ?thesis
    by (simp add: NewLocalFSWithConfig_def demo_config_simps demo_Abs walk_three_def demo_skip_dir
        demo_walkFn_collect [OF demo_not_skipped(6) n demo_Abs_Join(1)]
        demo_collect_ok [OF demo_opened_files(1) r] b demo_classify demo_opened_def mk_store_def
        walkFn_skipped [OF k(1)] walkFn_skipped [OF k(2)] numeral_2_eq_2)
qed

text \<open>
  With the sample classification by suffix, a base directory that is classified as
  YAML or JSON has an extension of more than two characters, so the single-file test
  of the callback applies to it.
\<close>

lemma takeWhile_not_in:
  "c \<notin> set xs \<Longrightarrow> takeWhile (\<lambda>x. x \<noteq> c) (xs @ ys) = xs @ takeWhile (\<lambda>x. x \<noteq> c) ys"
  by (induction xs) auto

lemma Ext_suffix:
  assumes "HasSuffix p (CHR ''.'' # e)" "CHR ''.'' \<notin> set e" "CHR ''/'' \<notin> set e"
  shows "Ext p = CHR ''.'' # e"
proof -
  from assms(1) have "p = take (length p - Suc (length e)) p @ CHR ''.'' # e"
    by (simp add: HasSuffix_def) (metis append_take_drop_id)
  then obtain xs where p: "p = xs @ CHR ''.'' # e" ..
  have s: "CHR ''/'' \<notin> set (rev e)" and d: "CHR ''.'' \<notin> set (rev e)"
    using assms(2,3) by simp_all
  have "takeWhile (\<lambda>c. c \<noteq> CHR ''/'') (rev p)
      = rev e @ CHR ''.'' # takeWhile (\<lambda>c. c \<noteq> CHR ''/'') (rev xs)"
    by (simp add: p takeWhile_not_in [OF s])
  moreover have "takeWhile (\<lambda>c. c \<noteq> CHR ''.'') (rev e @ CHR ''.'' # ys) = rev e" for ys
    by (simp add: takeWhile_not_in [OF d])
  ultimately show ?thesis by (simp add: Ext_def Let_def)
qed

lemma recognized_extension_is_long:
  assumes "ExtractFileType demo_env b \<noteq> UNSUPPORTED"
  shows "2 < length (Ext b)"
proof -
  from assms have "HasSuffix b ''.yaml'' \<or> HasSuffix b ''.yml'' \<or> HasSuffix b ''.json''"
    by (auto simp: demo_env_def split: if_splits)
  then show ?thesis
  proof (elim disjE)
    assume "HasSuffix b ''.yaml''"
    from Ext_suffix [OF this] show ?thesis by simp
  next
    assume "HasSuffix b ''.yml''"
    from Ext_suffix [OF this] show ?thesis by simp
  next
    assume "HasSuffix b ''.json''"
    from Ext_suffix [OF this] show ?thesis by simp
  qed
qed

text \<open>
  What the constructor returns, as the code stands: the error of making the base
  directory absolute; the first error that the walk hands to the callback; otherwise
  a file source. An error it returns is one of those two.
\<close>

lemma NewLocalFSWithConfig_errors:
  "(Abs E (BaseDirectory c) = Inl e \<longrightarrow> NewLocalFSWithConfig E c s = Inl e)
   \<and> (Abs E (BaseDirectory c) = Inr b \<and> fsWalk (DirFS c) = pre @ (p, d, Some e) # post
        \<and> (\<forall>we \<in> set pre. snd (snd we) = None)
        \<longrightarrow> NewLocalFSWithConfig E c s = Inl e)
   \<and> (Abs E (BaseDirectory c) = Inr b \<and> (\<forall>we \<in> set (fsWalk (DirFS c)). snd (snd we) = None)
        \<longrightarrow> (\<exists>fs s1. NewLocalFSWithConfig E c s = Inr (fs, s1) \<and> baseDirectory fs = b))
   \<and> (NewLocalFSWithConfig E c s = Inl e
        \<longrightarrow> Abs E (BaseDirectory c) = Inl e \<or> (\<exists>q dq. (q, dq, Some e) \<in> set (fsWalk (DirFS c))))"
proof (intro conjI impI)
  show "NewLocalFSWithConfig E c s = Inl e" if "Abs E (BaseDirectory c) = Inl e"
    using that by (simp add: NewLocalFSWithConfig_def)
next
  assume a: "Abs E (BaseDirectory c) = Inr b \<and> fsWalk (DirFS c) = pre @ (p, d, Some e) # post
        \<and> (\<forall>we \<in> set pre. snd (snd we) = None)"
  then have "WalkDir (fsWalk (DirFS c)) (walkFn E c) \<lparr>localFiles = Map.empty, allErrors = [], heap = s\<rparr> = Inl e"
    by (simp add: WalkDir_first_error)
  with a show "NewLocalFSWithConfig E c s = Inl e"
    by (simp add: NewLocalFSWithConfig_def)
next
  assume a: "Abs E (BaseDirectory c) = Inr b \<and> (\<forall>we \<in> set (fsWalk (DirFS c)). snd (snd we) = None)"
  then obtain w1 where
    "WalkDir (fsWalk (DirFS c)) (walkFn E c) \<lparr>localFiles = Map.empty, allErrors = [], heap = s\<rparr> = Inr w1"
    using WalkDir_no_errors by blast
  with a show "\<exists>fs s1. NewLocalFSWithConfig E c s = Inr (fs, s1) \<and> baseDirectory fs = b"
    by (simp add: NewLocalFSWithConfig_def)
next
  assume a: "NewLocalFSWithConfig E c s = Inl e"
  show "Abs E (BaseDirectory c) = Inl e \<or> (\<exists>q dq. (q, dq, Some e) \<in> set (fsWalk (DirFS c)))"
  proof (cases "Abs E (BaseDirectory c)")
    case (Inl e')
    with a show ?thesis by (simp add: NewLocalFSWithConfig_def)
  next
    case (Inr b')
    with a have "WalkDir (fsWalk (DirFS c)) (walkFn E c) \<lparr>localFiles = Map.empty, allErrors = [], heap = s\<rparr> = Inl e"
      by (simp add: NewLocalFSWithConfig_def split: sum.splits)
    from WalkDir_Inl [OF this] show ?thesis by blast
  qed
qed

section \<open>The claims about discovery\<close>

text \<open>
  Claim C2. The claim says that an error the walk reports for one entry does not end
  the discovery. The code ends it: the first statement of the callback returns the
  error, the walk stops and the constructor returns the error without a file source.
  Here the walk has started and has passed \<^verbatim>\<open>a.yaml\<close> when it reports that the
  directory \<^verbatim>\<open>sub\<close> cannot be read: the constructor returns that error, \<^verbatim>\<open>a.yaml\<close>
  is lost and \<^verbatim>\<open>b.yaml\<close> is never looked at. The callback returns the error for the
  very entry that it passes over with nil when the walk reports it without error,
  so the test \<^verbatim>\<open>d == nil || d.IsDir()\<close> and the comment above it (errors are of no
  concern, everything that can be read is read) never apply to an entry with an
  error, while the errors of opening, stat-ing and reading a file are collected.
\<close>

theorem walk_error_aborts_construction:
  "NewLocalFSWithConfig demo_env (demo_config ''/specs'' [] walk_with_error)
      (mk_store (demo_file ''a: 1'') (demo_index None))
    = Inl (ErrExternal ''open sub: permission denied'')
   \<and> walkFn demo_env (demo_config ''/specs'' [] walk_with_error)
        (''sub'', a_dir, Some (ErrExternal ''open sub: permission denied'')) walk_start
    = Inl (ErrExternal ''open sub: permission denied'')
   \<and> walkFn demo_env (demo_config ''/specs'' [] walk_with_error) (''sub'', a_dir, None) walk_start
    = Inr walk_start
   \<and> walkFn demo_env (demo_config ''/specs'' [] walk_with_error) (''a.yaml'', a_file, None) walk_start
    = Inr (collect demo_env (demo_config ''/specs'' [] walk_with_error) ''a.yaml'' ''/specs/a.yaml'' []
            walk_start)
   \<and> localFiles (collect demo_env (demo_config ''/specs'' [] walk_with_error) ''a.yaml''
         ''/specs/a.yaml'' [] walk_start) ''/specs/a.yaml'' = Some 1"
proof -
  let ?pre = "[(''.'', a_dir, None), (''a.yaml'', a_file, None), (''sub'', a_dir, None)]"
  have "\<forall>we \<in> set ?pre. snd (snd we) = (None :: error option)"
    by simp
  from WalkDir_first_error [OF this]
  have "WalkDir (?pre @ (''sub'', a_dir, Some (ErrExternal ''open sub: permission denied''))
                 # [(''b.yaml'', a_file, None)])
          (walkFn demo_env (demo_config ''/specs'' [] walk_with_error))
          \<lparr>localFiles = Map.empty, allErrors = [],
            heap = mk_store (demo_file ''a: 1'') (demo_index None)\<rparr>
        = Inl (ErrExternal ''open sub: permission denied'')" .
  then have a: "NewLocalFSWithConfig demo_env (demo_config ''/specs'' [] walk_with_error)
      (mk_store (demo_file ''a: 1'') (demo_index None))
    = Inl (ErrExternal ''open sub: permission denied'')"
    by (simp add: NewLocalFSWithConfig_def demo_config_simps demo_Abs walk_with_error_def)
  have n: "ExtractFileType demo_env ''a.yaml'' \<noteq> UNSUPPORTED" by (simp add: demo_classify)
  have r: "ReadAll (demo_opened ''a: 1'') = (''a: 1'', None)" by (simp add: demo_opened_def)
  have c: "localFiles (collect demo_env (demo_config ''/specs'' [] walk_with_error) ''a.yaml''
         ''/specs/a.yaml'' [] walk_start) ''/specs/a.yaml'' = Some 1"
    by (simp add: demo_collect_ok [OF demo_opened_files(1) r] walk_start_def mk_store_def)
  from a c show ?thesis
    by (simp add: walkFn_error demo_skip_dir
        demo_walkFn_collect [OF demo_not_skipped(1) n demo_Abs_Join(1)])
qed

text \<open>
  Claim C7, as amended. Every entry of the file source that \<^verbatim>\<open>NewLocalFSWithConfig\<close>
  returns comes from a walked entry without error that is not a directory, whose
  path is the base name of the base directory when that has an extension of more than
  two characters with its dot, whose path does not begin with a dot, whose path is in
  the filter list when there is one, and which is classified as YAML or JSON; the
  record has that path as its file name and the key as its full path. The test for
  the dot is on the walked path, not on the name of the file. A walked entry that
  fails one of the tests, or is classified as unsupported, leaves the collected
  files, the collected errors and the store as they are.
\<close>

theorem discovery_creates_only_eligible_entries:
  "(NewLocalFSWithConfig E c s = Inr (fs, s1) \<and> Files fs k = Some a \<longrightarrow>
      (\<exists>p de. (p, Some de, None) \<in> set (fsWalk (DirFS c))
         \<and> \<not> IsDir de
         \<and> (length (Ext (BaseDirectory c)) > 2 \<longrightarrow> p = Base (BaseDirectory c))
         \<and> \<not> HasPrefix p ''.''
         \<and> (FileFilters c \<noteq> [] \<longrightarrow> p \<in> set (FileFilters c))
         \<and> (ExtractFileType E p = YAML \<or> ExtractFileType E p = JSON)
         \<and> filename (files s1 a) = p \<and> fullPath (files s1 a) = k))
   \<and> ((case d of None \<Rightarrow> True | Some de \<Rightarrow> IsDir de)
        \<or> (length (Ext (BaseDirectory c)) > 2 \<and> q \<noteq> Base (BaseDirectory c))
        \<or> HasPrefix q ''.''
        \<or> (FileFilters c \<noteq> [] \<and> q \<notin> set (FileFilters c))
        \<or> ExtractFileType E q = UNSUPPORTED
      \<longrightarrow> walkFn E c (q, d, None) w = Inr w)"
proof (intro conjI impI)
  assume a: "NewLocalFSWithConfig E c s = Inr (fs, s1) \<and> Files fs k = Some a"
  let ?P = "\<lambda>(lf :: LocalFile) k. \<exists>p d. (p, d, None) \<in> set (fsWalk (DirFS c)) \<and> \<not> skipped c p d
              \<and> ExtractFileType E p \<noteq> UNSUPPORTED \<and> filename lf = p \<and> fullPath lf = k"
  let ?w0 = "\<lparr>localFiles = Map.empty, allErrors = [], heap = s\<rparr>"
  from a obtain w1 where w: "WalkDir (fsWalk (DirFS c)) (walkFn E c) ?w0 = Inr w1"
    and fs: "Files fs = localFiles w1" and s1: "s1 = heap w1"
    by (auto simp: NewLocalFSWithConfig_def split: sum.splits)
  have inv: "\<forall>k a. localFiles w1 k = Some a \<longrightarrow> a < nextFile (heap w1) \<and> ?P (files (heap w1) a) k"
    by (rule WalkDir_inv [OF w]) auto
  from a fs have "localFiles w1 k = Some a" by simp
  with inv have "?P (files (heap w1) a) k" by blast
  then have "?P (files s1 a) k" by (simp only: s1)
  then obtain p d where p: "(p, d, None) \<in> set (fsWalk (DirFS c))" "\<not> skipped c p d"
    "ExtractFileType E p \<noteq> UNSUPPORTED" "filename (files s1 a) = p" "fullPath (files s1 a) = k"
    by blast
  from p(2) obtain de where de: "d = Some de" "\<not> IsDir de"
    by (cases d) (auto simp: skipped_iff)
  from p(3) have "ExtractFileType E p = YAML \<or> ExtractFileType E p = JSON"
    by (cases "ExtractFileType E p") simp_all
  with p de show "\<exists>p de. (p, Some de, None) \<in> set (fsWalk (DirFS c))
         \<and> \<not> IsDir de
         \<and> (length (Ext (BaseDirectory c)) > 2 \<longrightarrow> p = Base (BaseDirectory c))
         \<and> \<not> HasPrefix p ''.''
         \<and> (FileFilters c \<noteq> [] \<longrightarrow> p \<in> set (FileFilters c))
         \<and> (ExtractFileType E p = YAML \<or> ExtractFileType E p = JSON)
         \<and> filename (files s1 a) = p \<and> fullPath (files s1 a) = k"
    unfolding skipped_iff by blast
next
  assume "(case d of None \<Rightarrow> True | Some de \<Rightarrow> IsDir de)
        \<or> (length (Ext (BaseDirectory c)) > 2 \<and> q \<noteq> Base (BaseDirectory c))
        \<or> HasPrefix q ''.''
        \<or> (FileFilters c \<noteq> [] \<and> q \<notin> set (FileFilters c))
        \<or> ExtractFileType E q = UNSUPPORTED"
  then have "skipped c q d \<or> ExtractFileType E q = UNSUPPORTED"
    unfolding skipped_iff by blast
  then show "walkFn E c (q, d, None) w = Inr w"
    by (auto simp: walkFn_skipped walkFn_unsupported)
qed

text \<open>
  The filter list \<^verbatim>\<open>a.yaml\<close> over a directory with \<^verbatim>\<open>a.yaml\<close>, \<^verbatim>\<open>b.yaml\<close> and
  \<^verbatim>\<open>c.json\<close> gives the one entry for \<^verbatim>\<open>a.yaml\<close>; a filtered path, an unsupported
  file, a path with a leading dot and a path beside a single-file base are passed over.
\<close>

theorem discovery_creates_only_eligible_entries_witness:
  "\<not> isl (NewLocalFSWithConfig demo_env (demo_config ''/specs'' [''a.yaml''] walk_three)
            (mk_store (demo_file ''a: 1'') (demo_index None)))
   \<and> Files (fst (projr (NewLocalFSWithConfig demo_env (demo_config ''/specs'' [''a.yaml''] walk_three)
            (mk_store (demo_file ''a: 1'') (demo_index None))))) ''/specs/a.yaml'' = Some 1
   \<and> filename (files (snd (projr (NewLocalFSWithConfig demo_env (demo_config ''/specs'' [''a.yaml''] walk_three)
            (mk_store (demo_file ''a: 1'') (demo_index None))))) 1) \<in> set [''a.yaml'']
   \<and> fullPath (files (snd (projr (NewLocalFSWithConfig demo_env (demo_config ''/specs'' [''a.yaml''] walk_three)
            (mk_store (demo_file ''a: 1'') (demo_index None))))) 1) = ''/specs/a.yaml''
   \<and> walkFn demo_env (demo_config ''/specs'' [''a.yaml''] walk_three) (''b.yaml'', a_file, None) walk_start
       = Inr walk_start
   \<and> walkFn demo_env (demo_config ''/specs'' [] walk_three) (''notes.txt'', a_file, None) walk_start
       = Inr walk_start
   \<and> walkFn demo_env (demo_config ''/specs'' [] walk_three) (''.hidden.yaml'', a_file, None) walk_start
       = Inr walk_start
   \<and> walkFn demo_env (demo_config ''/specs/a.yaml'' [] walk_three) (''b.yaml'', a_file, None) walk_start
       = Inr walk_start"
proof -
  let ?c = "demo_config ''/specs'' [''a.yaml''] walk_three"
  let ?s = "mk_store (demo_file ''a: 1'') (demo_index None)"
  let ?r = "NewLocalFSWithConfig demo_env ?c ?s"
  have i: "\<not> isl ?r" and f: "Files (fst (projr ?r)) ''/specs/a.yaml'' = Some 1"
    by (simp_all add: walk_three_result)
  from i have e: "?r = Inr (fst (projr ?r), snd (projr ?r))" by (cases ?r) simp_all
  from discovery_creates_only_eligible_entries
    [of demo_env ?c ?s "fst (projr ?r)" "snd (projr ?r)" "''/specs/a.yaml''" 1] e f
  obtain p where "FileFilters ?c \<noteq> [] \<longrightarrow> p \<in> set (FileFilters ?c)"
    "filename (files (snd (projr ?r)) 1) = p" "fullPath (files (snd (projr ?r)) 1) = ''/specs/a.yaml''"
    by blast
  then have a: "filename (files (snd (projr ?r)) 1) \<in> set [''a.yaml'']"
    "fullPath (files (snd (projr ?r)) 1) = ''/specs/a.yaml''"
    by (simp_all add: demo_config_simps)
  have h: "FileFilters ?c \<noteq> [] \<and> ''b.yaml'' \<notin> set (FileFilters ?c)"
    "ExtractFileType demo_env ''notes.txt'' = UNSUPPORTED"
    "HasPrefix ''.hidden.yaml'' ''.''"
    "length (Ext (BaseDirectory (demo_config ''/specs/a.yaml'' [] walk_three))) > 2
       \<and> ''b.yaml'' \<noteq> Base (BaseDirectory (demo_config ''/specs/a.yaml'' [] walk_three))"
    by (simp_all add: demo_config_simps demo_classify HasPrefix_def Ext_def Base_def)
  from discovery_creates_only_eligible_entries
    [where c = ?c and q = "''b.yaml''" and d = a_file and E = demo_env and w = walk_start] h(1)
  have b: "walkFn demo_env ?c (''b.yaml'', a_file, None) walk_start = Inr walk_start" by blast
  from discovery_creates_only_eligible_entries
    [where c = "demo_config ''/specs'' [] walk_three" and q = "''notes.txt''" and d = a_file
       and E = demo_env and w = walk_start] h(2)
  have c: "walkFn demo_env (demo_config ''/specs'' [] walk_three) (''notes.txt'', a_file, None) walk_start
      = Inr walk_start" by blast
  from discovery_creates_only_eligible_entries
    [where c = "demo_config ''/specs'' [] walk_three" and q = "''.hidden.yaml''" and d = a_file
       and E = demo_env and w = walk_start] h(3)
  have d: "walkFn demo_env (demo_config ''/specs'' [] walk_three) (''.hidden.yaml'', a_file, None) walk_start
      = Inr walk_start" by blast
  from discovery_creates_only_eligible_entries
    [where c = "demo_config ''/specs/a.yaml'' [] walk_three" and q = "''b.yaml''" and d = a_file
       and E = demo_env and w = walk_start] h(4)
  have g: "walkFn demo_env (demo_config ''/specs/a.yaml'' [] walk_three) (''b.yaml'', a_file, None) walk_start
      = Inr walk_start" by blast
  from i f a b c d g show ?thesis by blast
qed

text \<open>
  The claim as stated fails for a hidden file below the root of the walk: the path
  \<^verbatim>\<open>sub/.hidden.yaml\<close> does not begin with a dot, so the file named \<^verbatim>\<open>.hidden.yaml\<close>
  becomes an entry.
\<close>

theorem nested_hidden_file_counterexample:
  "\<not> isl (NewLocalFSWithConfig demo_env (demo_config ''/specs'' [] walk_hidden)
            (mk_store (demo_file ''a: 1'') (demo_index None)))
   \<and> Files (fst (projr (NewLocalFSWithConfig demo_env (demo_config ''/specs'' [] walk_hidden)
            (mk_store (demo_file ''a: 1'') (demo_index None))))) ''/specs/sub/.hidden.yaml'' = Some 1
   \<and> name (files (snd (projr (NewLocalFSWithConfig demo_env (demo_config ''/specs'' [] walk_hidden)
            (mk_store (demo_file ''a: 1'') (demo_index None))))) 1) = ''.hidden.yaml''
   \<and> HasPrefix ''.hidden.yaml'' ''.''"
  by (simp add: walk_hidden_result HasPrefix_def)

text \<open>
  Claim C8. The callback never returns an error for an entry the walk reports without
  one, so the walk goes on. For a YAML or JSON candidate that passed the tests: when
  the file cannot be opened, the error is appended to the collected errors and nothing
  else changes; when reading fails, the stat error, if any, and the read error are
  appended and nothing else changes, so no entry is made and the entries collected
  before and their records are as they were; when reading succeeds, a new record is
  stored under the absolute path, with the bytes read as its data, that path as full
  path, the modification time of the file info, or the current time when there is no
  file info, and a stat error, if any, among its own errors and the collected ones;
  no other record changes.
\<close>

theorem acquisition_failures_are_partial:
  "(\<exists>w1. walkFn E c (p, d, None) w = Inr w1)
   \<and> (\<not> skipped c p d \<and> ExtractFileType E p \<noteq> UNSUPPORTED
        \<and> Abs E (Join (BaseDirectory c) p) = Inr k \<longrightarrow>
        (fsOpen (DirFS c) p = Inl e \<longrightarrow>
           walkFn E c (p, d, None) w = Inr (w\<lparr>allErrors := allErrors w @ [e]\<rparr>))
      \<and> (fsOpen (DirFS c) p = Inr f \<and> ReadAll f = (bs, Some e) \<longrightarrow>
           walkFn E c (p, d, None) w
             = Inr (w\<lparr>allErrors := allErrors w @ (case snd (Stat f) of None \<Rightarrow> [] | Some x \<Rightarrow> [x]) @ [e]\<rparr>))
      \<and> (fsOpen (DirFS c) p = Inr f \<and> ReadAll f = (bs, None) \<longrightarrow>
           (\<exists>w1. walkFn E c (p, d, None) w = Inr w1
              \<and> localFiles w1 = (localFiles w)(k \<mapsto> nextFile (heap w))
              \<and> data (files (heap w1) (nextFile (heap w))) = Some bs
              \<and> fullPath (files (heap w1) (nextFile (heap w))) = k
              \<and> filename (files (heap w1) (nextFile (heap w))) = p
              \<and> lastModified (files (heap w1) (nextFile (heap w)))
                  = (case fst (Stat f) of None \<Rightarrow> Now E p | Some fi \<Rightarrow> ModTime fi)
              \<and> readingErrors (files (heap w1) (nextFile (heap w)))
                  = (case snd (Stat f) of None \<Rightarrow> [] | Some x \<Rightarrow> [x])
              \<and> allErrors w1 = allErrors w @ (case snd (Stat f) of None \<Rightarrow> [] | Some x \<Rightarrow> [x])
              \<and> (\<forall>a. a \<noteq> nextFile (heap w) \<longrightarrow> files (heap w1) a = files (heap w) a))))"
proof (intro conjI impI)
  show "\<exists>w1. walkFn E c (p, d, None) w = Inr w1" by (rule walkFn_no_error)
next
  assume a: "\<not> skipped c p d \<and> ExtractFileType E p \<noteq> UNSUPPORTED
        \<and> Abs E (Join (BaseDirectory c) p) = Inr k"
  then have wf: "walkFn E c (p, d, None) w = Inr (collect E c p k [] w)"
    by (simp add: walkFn_collect)
  show "walkFn E c (p, d, None) w = Inr (w\<lparr>allErrors := allErrors w @ [e]\<rparr>)"
    if "fsOpen (DirFS c) p = Inl e"
    using that by (simp add: wf collect_open_error)
  show "walkFn E c (p, d, None) w
             = Inr (w\<lparr>allErrors := allErrors w @ (case snd (Stat f) of None \<Rightarrow> [] | Some x \<Rightarrow> [x]) @ [e]\<rparr>)"
    if "fsOpen (DirFS c) p = Inr f \<and> ReadAll f = (bs, Some e)"
    using that by (simp add: wf collect_read_error)
  show "\<exists>w1. walkFn E c (p, d, None) w = Inr w1
              \<and> localFiles w1 = (localFiles w)(k \<mapsto> nextFile (heap w))
              \<and> data (files (heap w1) (nextFile (heap w))) = Some bs
              \<and> fullPath (files (heap w1) (nextFile (heap w))) = k
              \<and> filename (files (heap w1) (nextFile (heap w))) = p
              \<and> lastModified (files (heap w1) (nextFile (heap w)))
                  = (case fst (Stat f) of None \<Rightarrow> Now E p | Some fi \<Rightarrow> ModTime fi)
              \<and> readingErrors (files (heap w1) (nextFile (heap w)))
                  = (case snd (Stat f) of None \<Rightarrow> [] | Some x \<Rightarrow> [x])
              \<and> allErrors w1 = allErrors w @ (case snd (Stat f) of None \<Rightarrow> [] | Some x \<Rightarrow> [x])
              \<and> (\<forall>a. a \<noteq> nextFile (heap w) \<longrightarrow> files (heap w1) a = files (heap w) a)"
    if b: "fsOpen (DirFS c) p = Inr f \<and> ReadAll f = (bs, None)"
  proof -
    from b have "collect E c p k [] w
     = w\<lparr>localFiles := (localFiles w)(k \<mapsto> nextFile (heap w)),
         allErrors := allErrors w @ (case snd (Stat f) of None \<Rightarrow> [] | Some x \<Rightarrow> [x]),
         heap := (heap w)\<lparr>files := (files (heap w))(nextFile (heap w) :=
                     \<lparr>filename = p, name = Base p, extension = ExtractFileType E p,
                      data = Some bs, fullPath = k,
                      lastModified = (case fst (Stat f) of None \<Rightarrow> Now E p | Some fi \<Rightarrow> ModTime fi),
                      readingErrors = [] @ (case snd (Stat f) of None \<Rightarrow> [] | Some x \<Rightarrow> [x]),
                      index = None, parsed = None\<rparr>),
                   nextFile := Suc (nextFile (heap w))\<rparr>\<rparr>"
      by (intro collect_ok) simp_all
    then show ?thesis by (simp add: wf)
  qed
qed

text \<open>
  From the empty collection: a file that cannot be opened, one that cannot be read,
  one without file info (collected, with the clock's 1000 as its time), and a sound one.
\<close>

theorem acquisition_failures_are_partial_witness:
  "walkFn demo_env (demo_config ''/specs'' [] walk_three) (''locked.yaml'', a_file, None) walk_start
     = Inr (walk_start\<lparr>allErrors := [ErrExternal ''open locked.yaml: permission denied'']\<rparr>)
   \<and> walkFn demo_env (demo_config ''/specs'' [] walk_three) (''cut.yaml'', a_file, None) walk_start
     = Inr (walk_start\<lparr>allErrors := [ErrExternal ''read cut.yaml: input/output error'']\<rparr>)
   \<and> (\<exists>w1. walkFn demo_env (demo_config ''/specs'' [] walk_three) (''nostat.yaml'', a_file, None) walk_start
            = Inr w1
        \<and> localFiles w1 ''/specs/nostat.yaml'' = Some 1
        \<and> data (files (heap w1) 1) = Some ''b: 2''
        \<and> lastModified (files (heap w1) 1) = 1000
        \<and> readingErrors (files (heap w1) 1) = [ErrExternal ''stat nostat.yaml: stale handle'']
        \<and> allErrors w1 = [ErrExternal ''stat nostat.yaml: stale handle''])
   \<and> (\<exists>w1. walkFn demo_env (demo_config ''/specs'' [] walk_three) (''a.yaml'', a_file, None) walk_start
            = Inr w1
        \<and> localFiles w1 ''/specs/a.yaml'' = Some 1
        \<and> data (files (heap w1) 1) = Some ''a: 1''
        \<and> lastModified (files (heap w1) 1) = 42
        \<and> allErrors w1 = [])"
proof -
  let ?c = "demo_config ''/specs'' [] walk_three"
  have n: "ExtractFileType demo_env ''locked.yaml'' \<noteq> UNSUPPORTED"
    "ExtractFileType demo_env ''cut.yaml'' \<noteq> UNSUPPORTED"
    "ExtractFileType demo_env ''nostat.yaml'' \<noteq> UNSUPPORTED"
    "ExtractFileType demo_env ''a.yaml'' \<noteq> UNSUPPORTED"
    by (simp_all add: demo_classify)
  have w: "nextFile (heap walk_start) = 1" "allErrors walk_start = []" "localFiles walk_start = Map.empty"
    by (simp_all add: walk_start_def mk_store_def)
  have now: "Now demo_env ''nostat.yaml'' = 1000" by (simp add: demo_env_def)
  from acquisition_failures_are_partial
    [of demo_env ?c "''locked.yaml''" a_file walk_start "''/specs/locked.yaml''"
        "ErrExternal ''open locked.yaml: permission denied''"]
    demo_not_skipped(2) n(1) demo_Abs_Join(2) demo_opened_files(3) w
  have a: "walkFn demo_env ?c (''locked.yaml'', a_file, None) walk_start
     = Inr (walk_start\<lparr>allErrors := [ErrExternal ''open locked.yaml: permission denied'']\<rparr>)"
    by (simp add: demo_config_simps demo_fsOpen)
  from acquisition_failures_are_partial
    [of demo_env ?c "''cut.yaml''" a_file walk_start "''/specs/cut.yaml''"
        "ErrExternal ''read cut.yaml: input/output error''"
        "\<lparr>Stat = (Some \<lparr>ModTime = 42\<rparr>, None),
          ReadAll = (''a:'', Some (ErrExternal ''read cut.yaml: input/output error''))\<rparr>" "''a:''"]
    demo_not_skipped(3) n(2) demo_Abs_Join(3) demo_opened_files(4) w
  have b: "walkFn demo_env ?c (''cut.yaml'', a_file, None) walk_start
     = Inr (walk_start\<lparr>allErrors := [ErrExternal ''read cut.yaml: input/output error'']\<rparr>)"
    by (simp add: demo_config_simps demo_fsOpen)
  from acquisition_failures_are_partial
    [of demo_env ?c "''nostat.yaml''" a_file walk_start "''/specs/nostat.yaml''" _
        "\<lparr>Stat = (None, Some (ErrExternal ''stat nostat.yaml: stale handle'')),
          ReadAll = (''b: 2'', None)\<rparr>" "''b: 2''"]
    demo_not_skipped(4) n(3) demo_Abs_Join(4) demo_opened_files(5) w now
  have c: "\<exists>w1. walkFn demo_env ?c (''nostat.yaml'', a_file, None) walk_start = Inr w1
        \<and> localFiles w1 ''/specs/nostat.yaml'' = Some 1
        \<and> data (files (heap w1) 1) = Some ''b: 2''
        \<and> lastModified (files (heap w1) 1) = 1000
        \<and> readingErrors (files (heap w1) 1) = [ErrExternal ''stat nostat.yaml: stale handle'']
        \<and> allErrors w1 = [ErrExternal ''stat nostat.yaml: stale handle'']"
    by (simp add: demo_config_simps demo_fsOpen) fastforce
  from acquisition_failures_are_partial
    [of demo_env ?c "''a.yaml''" a_file walk_start "''/specs/a.yaml''" _ "demo_opened ''a: 1''" "''a: 1''"]
    demo_not_skipped(1) n(4) demo_Abs_Join(1) demo_opened_files(1) w
  have d: "\<exists>w1. walkFn demo_env ?c (''a.yaml'', a_file, None) walk_start = Inr w1
        \<and> localFiles w1 ''/specs/a.yaml'' = Some 1
        \<and> data (files (heap w1) 1) = Some ''a: 1''
        \<and> lastModified (files (heap w1) 1) = 42
        \<and> allErrors w1 = []"
    by (simp add: demo_config_simps demo_fsOpen demo_opened_def) fastforce
  from a b c d show ?thesis by blast
qed

end
